theory Spec2Isabelle
  imports Complex_Main
begin

section \<open>Numbers\<close>

text \<open>
  The page computes with JavaScript numbers. They are modelled as real numbers, and
  the millisecond readings of \<^verbatim>\<open>Date.now()\<close> as integers; rounding, NaN and the
  infinities of the double format are outside the model.
\<close>

section \<open>InteractiveLogoAnimation: ranges, progress and easing\<close>

text \<open>\<^verbatim>\<open>ANIMATION_RANGES\<close>: each range is a pair, \<open>fst\<close> is index 0 and \<open>snd\<close> index 1.\<close>

definition initialToAbsorb :: "real \<times> real" where
  "initialToAbsorb = (0, 0.15)"

definition absorbToRelease :: "real \<times> real" where
  "absorbToRelease = (0.15, 0.25)"

definition releaseToFloat :: "real \<times> real" where
  "releaseToFloat = (0.25, 0.35)"

definition floatToFall :: "real \<times> real" where
  "floatToFall = (0.35, 0.45)"

definition fallToExpand :: "real \<times> real" where
  "fallToExpand = (0.45, 0.55)"

definition expandToFinal :: "real \<times> real" where
  "expandToFinal = (0.55, 0.65)"

definition normalizeProgress :: "real \<Rightarrow> real \<Rightarrow> real \<Rightarrow> real" where
  "normalizeProgress current lo hi = min 1 (max 0 ((current - lo) / (hi - lo)))"

definition easeInOutCubic :: "real \<Rightarrow> real" where
  "easeInOutCubic x = (if x < 0.5 then 4 * x * x * x else 1 - (- 2 * x + 2) ^ 3 / 2)"

definition easeOutQuint :: "real \<Rightarrow> real" where
  "easeOutQuint x = 1 - (1 - x) ^ 5"

definition easeInQuint :: "real \<Rightarrow> real" where
  "easeInQuint x = x * x * x * x * x"

text \<open>
  The stages are the numbers the component stores with \<^verbatim>\<open>setAnimationStage\<close>:
  0 Initial, 1 Absorb, 2 Release, 3 Float, 4 Fall, 5 Expand, 6 Final.
\<close>

abbreviation (input) Initial :: nat where "Initial \<equiv> 0"
abbreviation (input) Absorb :: nat where "Absorb \<equiv> 1"
abbreviation (input) Release :: nat where "Release \<equiv> 2"
abbreviation (input) Float :: nat where "Float \<equiv> 3"
abbreviation (input) Fall :: nat where "Fall \<equiv> 4"
abbreviation (input) Expand :: nat where "Expand \<equiv> 5"
abbreviation (input) Final :: nat where "Final \<equiv> 6"

text \<open>The chain of comparisons of \<^verbatim>\<open>calculateStages\<close> that picks the stage.\<close>

definition stageFor :: "real \<Rightarrow> bool \<Rightarrow> nat" where
  "stageFor scroll allowed =
     (if scroll < snd initialToAbsorb then Initial
      else if scroll < snd absorbToRelease then Absorb
      else if scroll < snd releaseToFloat then Release
      else if scroll < snd floatToFall then Float
      else if \<not> allowed \<or> scroll < snd fallToExpand then Fall
      else if scroll < snd expandToFinal then Expand
      else Final)"

section \<open>InteractiveLogoAnimation: state, effects and events\<close>

text \<open>
  The React state of the component that the stage depends on, and the callbacks handed
  to \<^verbatim>\<open>setTimeout\<close> that have not run yet. A pending callback is the closure
  \<^verbatim>\<open>checkFallDuration\<close>: it keeps the \<^verbatim>\<open>fallStartTime\<close> of the render that
  created it; the second component is the time it is due.
\<close>

record anim =
  interpolatedScroll :: real
  fallStartTime :: "int option"
  canExpand :: bool
  animationStage :: nat
  previousScrollProgress :: real
  timeouts :: "(int \<times> int) list"

definition initialAnim :: anim where
  "initialAnim = \<lparr>interpolatedScroll = 0, fallStartTime = None, canExpand = False,
     animationStage = 0, previousScrollProgress = 0, timeouts = []\<rparr>"

text \<open>
  The effect "Track when fall animation begins". Both tests read the
  \<^verbatim>\<open>fallStartTime\<close> of the same render.
\<close>

definition fallTimerEffect :: "int \<Rightarrow> anim \<Rightarrow> anim" where
  "fallTimerEffect now st =
     (let st1 = (if interpolatedScroll st \<ge> fst floatToFall \<and> fallStartTime st = None
                 then st\<lparr>fallStartTime := Some now\<rparr> else st)
      in if interpolatedScroll st < fst floatToFall \<and> fallStartTime st \<noteq> None
         then st1\<lparr>fallStartTime := None, canExpand := False\<rparr> else st1)"

definition minFallDuration :: int where
  "minFallDuration = 1000"

text \<open>
  \<^verbatim>\<open>checkFallDuration\<close>, run at time \<open>now\<close> by a closure that holds \<open>start\<close>:
  it grants the permission or asks to be called again after the remaining time.
\<close>

definition checkFallDuration :: "int \<Rightarrow> int \<Rightarrow> anim \<Rightarrow> anim" where
  "checkFallDuration start now st =
     (let fallDuration = now - start
      in if fallDuration \<ge> minFallDuration then st\<lparr>canExpand := True\<rparr>
         else (let remainingTime = minFallDuration - fallDuration
               in st\<lparr>timeouts := timeouts st @ [(start, now + remainingTime)]\<rparr>))"

text \<open>The effect "Ensure the fall animation plays for at least 1 second".\<close>

definition fallDurationEffect :: "int \<Rightarrow> anim \<Rightarrow> anim" where
  "fallDurationEffect now st =
     (case fallStartTime st of None \<Rightarrow> st | Some start \<Rightarrow> checkFallDuration start now st)"

text \<open>The state writes of \<^verbatim>\<open>calculateStages\<close>.\<close>

definition calculateStages :: "anim \<Rightarrow> anim" where
  "calculateStages st =
     st\<lparr>animationStage := stageFor (interpolatedScroll st) (canExpand st),
        previousScrollProgress := interpolatedScroll st\<rparr>"

text \<open>
  What happens to the component: \<open>Scroll r now\<close> is a render with a new
  \<^verbatim>\<open>interpolatedScroll\<close>, followed by the effects until the state settles;
  \<open>Timeout k now\<close> is the browser running the pending callback number \<open>k\<close>. The
  callback reads the clock itself, so the model lets it run at any time. All clock
  readings within one event are the same.
\<close>

datatype event = Scroll real int | Timeout nat int

fun eventTime :: "event \<Rightarrow> int" where
  "eventTime (Scroll r now) = now"
| "eventTime (Timeout k now) = now"

fun step :: "event \<Rightarrow> anim \<Rightarrow> anim" where
  "step (Scroll r now) st =
     (let st1 = st\<lparr>interpolatedScroll := r\<rparr>;
          st2 = fallTimerEffect now st1;
          st3 = (if fallStartTime st2 \<noteq> fallStartTime st1
                 then fallDurationEffect now st2 else st2)
      in calculateStages st3)"
| "step (Timeout k now) st =
     (if k < length (timeouts st)
      then (let start = fst (timeouts st ! k);
                st1 = st\<lparr>timeouts := take k (timeouts st) @ drop (Suc k) (timeouts st)\<rparr>
            in calculateStages (checkFallDuration start now st1))
      else st)"

fun run :: "anim \<Rightarrow> event list \<Rightarrow> anim" where
  "run st [] = st"
| "run st (e # es) = run (step e st) es"

text \<open>The states after each event, with the time of the event.\<close>

fun emitted :: "anim \<Rightarrow> event list \<Rightarrow> (int \<times> anim) list" where
  "emitted st [] = []"
| "emitted st (e # es) = (eventTime e, step e st) # emitted (step e st) es"

fun scrolls :: "event list \<Rightarrow> real list" where
  "scrolls [] = []"
| "scrolls (Scroll r now # es) = r # scrolls es"
| "scrolls (Timeout k now # es) = scrolls es"

text \<open>
  What holds of the state between events while the scroll value has never gone down
  since the component was mounted: the stage is the one of the current scroll value,
  the timer is set exactly from 0.35 on, every pending callback holds the current
  \<^verbatim>\<open>fallStartTime\<close>, and the permission was granted no earlier than a second
  after it. \<open>t\<close> is the clock at the last event.
\<close>

definition settled :: "int \<Rightarrow> anim \<Rightarrow> bool" where
  "settled t st \<longleftrightarrow>
     animationStage st = stageFor (interpolatedScroll st) (canExpand st) \<and>
     (case fallStartTime st of
        None \<Rightarrow> interpolatedScroll st < fst floatToFall \<and> \<not> canExpand st \<and> timeouts st = []
      | Some t0 \<Rightarrow> fst floatToFall \<le> interpolatedScroll st \<and>
          (\<forall>p \<in> set (timeouts st). fst p = t0) \<and>
          (canExpand st \<longrightarrow> t0 + minFallDuration \<le> t))"

text \<open>
  What holds of the state between events in every run, whichever way the scroll value
  moves: the stage is the one of the current scroll value and permission, and the timer
  is unset exactly below 0.35.
\<close>

definition classified :: "anim \<Rightarrow> bool" where
  "classified st \<longleftrightarrow>
     animationStage st = stageFor (interpolatedScroll st) (canExpand st) \<and>
     (fallStartTime st = None) = (interpolatedScroll st < fst floatToFall)"

text \<open>
  The state once the scroll value 0.50 has reached the freshly mounted component at
  time \<open>t0\<close>.
\<close>

definition atHalf :: "int \<Rightarrow> anim" where
  "atHalf t0 = step (Scroll 0.5 t0) initialAnim"

section \<open>InteractiveLogoAnimation: the styles written by calculateStages\<close>

text \<open>
  A CSS transform is kept as the template the code fills in, with the number not yet
  turned into text: \<open>Rotate r\<close> is \<^verbatim>\<open>rotate(${r}deg) translateZ(0)\<close>,
  \<open>TranslateY y\<close> is \<^verbatim>\<open>translateY(${y}px) translateZ(0)\<close>, \<open>Scale s\<close> is
  \<^verbatim>\<open>scale(${s}) translateZ(0)\<close>, \<open>TranslateZ\<close> is \<^verbatim>\<open>translateZ(0)\<close>,
  \<open>RotateNaN\<close> is a rotation by NaN and \<open>NoTransform\<close> the empty text.
\<close>

datatype transform = NoTransform | TranslateZ | Rotate real | RotateNaN | TranslateY real | Scale real

text \<open>A box shadow: horizontal offset, vertical offset, blur and the rgba colour.\<close>

datatype shadow = Shadow real real real "real \<times> real \<times> real \<times> real"

text \<open>
  The inline style of an element. Lengths are in pixels; \<open>None\<close> is a property the
  inline style does not set.
\<close>

record css =
  cssWidth :: "real option"
  cssHeight :: "real option"
  cssLeft :: "real option"
  cssTop :: "real option"
  cssOpacity :: "real option"
  backgroundColor :: "(real \<times> real \<times> real) option"
  transform :: transform
  boxShadow :: "shadow option"

text \<open>
  The elements the component writes to: \<^verbatim>\<open>squareRef.current\<close>,
  \<^verbatim>\<open>smallLogoRef.current\<close>, the first \<^verbatim>\<open>div\<close> inside the square and
  \<^verbatim>\<open>videoRef.current\<close>; \<open>None\<close> is a null reference.
\<close>

record dom =
  square :: "css option"
  smallLogo :: "css option"
  videoContainer :: "css option"
  video :: "css option"

text \<open>What a frame reads besides the component's state.\<close>

record ambient =
  scale :: real
  innerWidth :: real
  innerHeight :: real
  dateNow :: int

definition absorbProgress :: "anim \<Rightarrow> real" where
  "absorbProgress st =
     normalizeProgress (interpolatedScroll st) (fst initialToAbsorb) (snd initialToAbsorb)"

definition fallProgress :: "anim \<Rightarrow> real" where
  "fallProgress st =
     normalizeProgress (interpolatedScroll st) (fst floatToFall) (snd floatToFall)"

definition expandProgress :: "anim \<Rightarrow> real" where
  "expandProgress st =
     (if canExpand st
      then normalizeProgress (interpolatedScroll st) (fst fallToExpand) (snd fallToExpand)
      else 0)"

definition finalProgress :: "anim \<Rightarrow> real" where
  "finalProgress st =
     (if canExpand st
      then normalizeProgress (interpolatedScroll st) (fst expandToFinal) (snd expandToFinal)
      else 0)"

definition expansionProgress :: "anim \<Rightarrow> real" where
  "expansionProgress st = (if animationStage st = 5 then expandProgress st else finalProgress st)"

definition videoOpacity :: "real \<Rightarrow> real" where
  "videoOpacity easedExpansionProgress =
     (if easedExpansionProgress > 0.7
      then easeInOutCubic (min 1 ((easedExpansionProgress - 0.7) * 3.33)) else 0)"

text \<open>"Handle expansion": the writes to the square.\<close>

definition squareExpand :: "anim \<Rightarrow> ambient \<Rightarrow> css \<Rightarrow> css" where
  "squareExpand st env sq =
     (let easedExpansionProgress = easeOutQuint (expansionProgress st);
          width = 64 + easedExpansionProgress * (innerWidth env - 64);
          height = 64 + easedExpansionProgress * (innerHeight env - 64);
          left = (innerWidth env - width) / 2;
          startTop = innerHeight env * 0.6;
          endTop = (innerHeight env - height) / 2;
          top = startTop + easedExpansionProgress * (endTop - startTop);
          red = max 0 (255 * (1 - easedExpansionProgress))
      in sq\<lparr>cssWidth := Some width, cssHeight := Some height, cssLeft := Some left,
            cssTop := Some top, backgroundColor := Some (red, 0, 0),
            transform := TranslateZ\<rparr>)"

text \<open>The progress of the fall that is shown: held at 0.95 while expansion is not allowed.\<close>

definition displayFallProgress :: "anim \<Rightarrow> real" where
  "displayFallProgress st =
     (if \<not> canExpand st \<and> fallProgress st > 0.95 then 0.95 else fallProgress st)"

text \<open>"Handle falling".\<close>

definition squareFall :: "anim \<Rightarrow> ambient \<Rightarrow> css \<Rightarrow> css" where
  "squareFall st env sq =
     (let startY = 96;
          endY = innerHeight env * 0.6;
          easedProgress = easeInQuint (displayFallProgress st);
          currentY = startY + easedProgress * (endY - startY);
          rotationAngle = 8 * sin (displayFallProgress st * pi);
          rotationDirection =
            (if previousScrollProgress st > interpolatedScroll st then - 1 else 1);
          rotation = rotationDirection * rotationAngle
      in sq\<lparr>cssWidth := Some 64, cssHeight := Some 64, cssTop := Some currentY,
            transform := Rotate rotation, cssLeft := Some (innerWidth env * 0.4),
            backgroundColor := Some (220, 38, 38),
            boxShadow := Some (Shadow 0 (easedProgress * 20) 15 (0, 0, 0, easedProgress * 0.3))\<rparr>)"

text \<open>The float offset, used by \<^verbatim>\<open>calculateStages\<close> and by \<^verbatim>\<open>animateEffects\<close>.\<close>

definition floatY :: "int \<Rightarrow> real" where
  "floatY now =
     (let floatTime = real_of_int now / 500;
          primaryWave = sin floatTime * 8;
          secondaryWave = sin (floatTime * 1.5) * 2
      in primaryWave + secondaryWave)"

text \<open>"Set up square for release and float stages".\<close>

definition squareReleaseFloat :: "anim \<Rightarrow> ambient \<Rightarrow> css \<Rightarrow> css" where
  "squareReleaseFloat st env sq =
     sq\<lparr>cssWidth := Some 64, cssHeight := Some 64, cssLeft := Some (innerWidth env * 0.4),
        cssTop := Some 96, backgroundColor := Some (220, 38, 38),
        boxShadow := Some (Shadow 0 5 15 (0, 0, 0, 0.1)),
        transform := (if animationStage st = 3 then TranslateY (floatY (dateNow env))
                      else TranslateZ)\<rparr>"

text \<open>"Handle top rectangle logo".\<close>

definition smallLogoStyle :: "anim \<Rightarrow> ambient \<Rightarrow> css \<Rightarrow> css" where
  "smallLogoStyle st env logo =
     (if animationStage st = 0
      then (let relativeScale = max 0.3 (scale env)
            in logo\<lparr>transform := Scale relativeScale, cssOpacity := Some 1\<rparr>)
      else if animationStage st = 1
      then (let easedAbsorbProgress = easeInOutCubic (absorbProgress st);
                absorptionScale = max 0.01 ((1 - easedAbsorbProgress) * scale env)
            in logo\<lparr>transform := Scale absorptionScale,
                    cssOpacity := Some (1 - easedAbsorbProgress)\<rparr>)
      else logo\<lparr>cssOpacity := Some 0, transform := Scale 0\<rparr>)"

text \<open>"Hide square during initial and absorb stages".\<close>

definition squareHide :: "css \<Rightarrow> css" where
  "squareHide sq =
     sq\<lparr>cssWidth := Some 0, cssHeight := Some 0, cssOpacity := Some 0, transform := TranslateZ\<rparr>"

definition setOpacity :: "real \<Rightarrow> css \<Rightarrow> css" where
  "setOpacity v el = el\<lparr>cssOpacity := Some v\<rparr>"

text \<open>
  The style writes of one run of \<^verbatim>\<open>calculateStages\<close>, in the order of the source.
  \<open>st\<close> is the state of the render the effect belongs to.
\<close>

definition applyStyles :: "anim \<Rightarrow> ambient \<Rightarrow> dom \<Rightarrow> dom" where
  "applyStyles st env d =
     (case square d of
        None \<Rightarrow> d
      | Some sq \<Rightarrow>
         (let expanding = (animationStage st \<ge> 5 \<and> canExpand st);
              sq1 = (if animationStage st \<ge> 2 \<and> animationStage st \<le> 5
                     then setOpacity 1 sq else sq);
              sq2 = (if expanding then squareExpand st env sq1 else sq1);
              shown = videoOpacity (easeOutQuint (expansionProgress st));
              container = (if expanding then map_option (setOpacity shown) (videoContainer d)
                           else videoContainer d);
              vid = (if expanding then map_option (setOpacity shown) (video d) else video d);
              sq3 = (if animationStage st = 4 then squareFall st env sq2 else sq2);
              sq4 = (if animationStage st = 2 \<or> animationStage st = 3
                     then squareReleaseFloat st env sq3 else sq3);
              logo = map_option (smallLogoStyle st env) (smallLogo d);
              sq5 = (if animationStage st < 2 then squareHide sq4 else sq4)
          in d\<lparr>square := Some sq5, smallLogo := logo, videoContainer := container,
                video := vid\<rparr>))"

text \<open>
  One run of \<^verbatim>\<open>calculateStages\<close> as a whole: the style writes use the state of
  the render the effect belongs to, and the state writes (\<^verbatim>\<open>setAnimationStage\<close>,
  \<^verbatim>\<open>setPreviousScrollProgress\<close>) are what the next render sees. The effect lists
  \<^verbatim>\<open>animationStage\<close> and \<^verbatim>\<open>previousScrollProgress\<close> among its dependencies, so
  a write that changes one of them makes it run again.
\<close>

definition calculateStagesEffect :: "ambient \<Rightarrow> anim \<times> dom \<Rightarrow> anim \<times> dom" where
  "calculateStagesEffect env sd = (calculateStages (fst sd), applyStyles (fst sd) env (snd sd))"

text \<open>The square and its inner elements as the JSX creates them.\<close>

definition initialSquare :: css where
  "initialSquare = \<lparr>cssWidth = Some 0, cssHeight = Some 0, cssLeft = None, cssTop = None,
     cssOpacity = Some 0, backgroundColor = None, transform = NoTransform,
     boxShadow = Some (Shadow 0 0 15 (255, 0, 0, 0.7))\<rparr>"

definition squareColor :: "dom \<Rightarrow> (real \<times> real \<times> real) option" where
  "squareColor d = (case square d of None \<Rightarrow> None | Some sq \<Rightarrow> backgroundColor sq)"

section \<open>InteractiveLogoAnimation: animateEffects\<close>

text \<open>
  The text of a transform. \<open>fmt\<close> is the conversion of a number to text that a
  template literal applies; it belongs to the JavaScript runtime, so it is a parameter.
\<close>

definition cssText :: "(real \<Rightarrow> string) \<Rightarrow> transform \<Rightarrow> string" where
  "cssText fmt t =
     (case t of
        NoTransform \<Rightarrow> []
      | TranslateZ \<Rightarrow> ''translateZ(0)''
      | Rotate r \<Rightarrow> ''rotate('' @ fmt r @ ''deg) translateZ(0)''
      | RotateNaN \<Rightarrow> ''rotate(NaNdeg) translateZ(0)''
      | TranslateY v \<Rightarrow> ''translateY('' @ fmt v @ ''px) translateZ(0)''
      | Scale v \<Rightarrow> ''scale('' @ fmt v @ '') translateZ(0)'')"

fun startsWith :: "string \<Rightarrow> string \<Rightarrow> bool" where
  "startsWith [] s = True"
| "startsWith (c # cs) [] = False"
| "startsWith (c # cs) (d # ds) = (c = d \<and> startsWith cs ds)"

text \<open>\<^verbatim>\<open>s.includes(sub)\<close>.\<close>

fun includesText :: "string \<Rightarrow> string \<Rightarrow> bool" where
  "includesText sub [] = (sub = [])"
| "includesText sub (c # cs) = (startsWith sub (c # cs) \<or> includesText sub cs)"

text \<open>\<^verbatim>\<open>s.replace(/[^0-9.-]+/g, '')\<close>: only digits, points and minus signs stay.\<close>

definition stripNonNumeric :: "string \<Rightarrow> string" where
  "stripNonNumeric s = filter (\<lambda>c. c \<in> set ''0123456789.-'') s"

definition isDigit :: "char \<Rightarrow> bool" where
  "isDigit c = (c \<in> set ''0123456789'')"

definition digitsValue :: "string \<Rightarrow> nat" where
  "digitsValue ds = foldl (\<lambda>acc c. 10 * acc + (of_char c - 48)) 0 ds"

text \<open>
  \<^verbatim>\<open>parseFloat\<close> on a text of digits, points and minus signs, which is all that
  \<^verbatim>\<open>stripNonNumeric\<close> leaves: an optional minus sign, digits, and a point with
  more digits; it stops at the first character that does not fit and gives NaN
  (\<open>None\<close>) when there is no digit.
\<close>

definition parseFloat :: "string \<Rightarrow> real option" where
  "parseFloat s =
     (let negative = (case s of [] \<Rightarrow> False | c # cs \<Rightarrow> c = CHR ''-'');
          body = (if negative then tl s else s);
          whole = takeWhile isDigit body;
          rest = dropWhile isDigit body;
          fraction = (case rest of [] \<Rightarrow> [] | c # cs \<Rightarrow>
                        if c = CHR ''.'' then takeWhile isDigit cs else []);
          magnitude = real (digitsValue whole)
                      + real (digitsValue fraction) / 10 ^ length fraction
      in if whole = [] \<and> fraction = [] then None
         else Some (if negative then - magnitude else magnitude))"

text \<open>
  The callback \<^verbatim>\<open>animateEffects\<close> of the animation frame: \<open>stage\<close> is the
  \<^verbatim>\<open>animationStage\<close> of the render that registered it, \<open>now\<close> is
  \<^verbatim>\<open>Date.now()\<close>. In the Fall stage it reads the rotation back from the text of
  the current transform.
\<close>

definition animateEffects :: "(real \<Rightarrow> string) \<Rightarrow> nat \<Rightarrow> int \<Rightarrow> dom \<Rightarrow> dom" where
  "animateEffects fmt stage now d =
     (case square d of
        None \<Rightarrow> d
      | Some sq \<Rightarrow>
          if stage = 3 then d\<lparr>square := Some (sq\<lparr>transform := TranslateY (floatY now)\<rparr>)\<rparr>
          else if stage = 4
          then (let currentTransform = cssText fmt (transform sq)
                in if includesText ''rotate'' currentTransform
                   then (let rotationAmount = sin (real_of_int now / 200) * 1.5;
                             newTransform =
                               (case parseFloat (stripNonNumeric currentTransform) of
                                  None \<Rightarrow> RotateNaN
                                | Some base \<Rightarrow> Rotate (base + rotationAmount * 0.1))
                         in d\<lparr>square := Some (sq\<lparr>transform := newTransform\<rparr>)\<rparr>)
                   else d)
          else d)"

text \<open>
  The decimal digits of a natural number, and with them the text of a number that is an
  integer of magnitude below \<open>10\<^sup>2\<^sup>1\<close>, which JavaScript writes as its digits
  after a minus sign if it is negative. Concrete runs below use it on such numbers only.
\<close>

fun digitsOf :: "nat \<Rightarrow> string" where
  "digitsOf n =
     (if n < 10 then [char_of (48 + n)] else digitsOf (n div 10) @ [char_of (48 + n mod 10)])"

definition integerText :: "real \<Rightarrow> string" where
  "integerText r = (if r < 0 then CHR ''-'' # digitsOf (nat \<lfloor>- r\<rfloor>) else digitsOf (nat \<lfloor>r\<rfloor>))"

section \<open>ParticlesCanvas: one particle in one frame\<close>

text \<open>
  A particle; the fields \<^verbatim>\<open>x\<close>, \<^verbatim>\<open>y\<close>, \<^verbatim>\<open>size\<close> and \<^verbatim>\<open>opacity\<close> of the
  source are \<open>posX\<close>, \<open>posY\<close>, \<open>radius\<close> and \<open>alpha\<close> here.
\<close>

record particle =
  posX :: real
  posY :: real
  radius :: real
  speedX :: real
  speedY :: real
  alpha :: real
  hue :: real

text \<open>
  The body of \<^verbatim>\<open>particlesRef.current.forEach\<close> in \<^verbatim>\<open>animate\<close> up to the
  boundary handling; what follows it only draws. \<open>mouse\<close> is \<^verbatim>\<open>mousePosition\<close>,
  \<open>dims\<close> is \<^verbatim>\<open>dimensions\<close> (width, height).
\<close>

definition moveParticle :: "real \<times> real \<Rightarrow> real \<Rightarrow> real \<times> real \<Rightarrow> particle \<Rightarrow> particle" where
  "moveParticle mouse scrollProgress dims p =
     (let mouseRadius = 100;
          mouseStrength = 1;
          scrollEffect = scrollProgress * 5;
          dx = fst mouse - posX p;
          dy = snd mouse - posY p;
          distance = sqrt (dx * dx + dy * dy);
          p1 = (if distance < mouseRadius
                then (let influence = 1 - distance / mouseRadius
                      in p\<lparr>posX := posX p - dx * influence * mouseStrength * 0.05,
                           posY := posY p - dy * influence * mouseStrength * 0.05\<rparr>)
                else p);
          p2 = p1\<lparr>posY := posY p1 + scrollEffect * 0.1\<rparr>;
          p3 = p2\<lparr>posX := posX p2 + speedX p2\<rparr>;
          p4 = p3\<lparr>posY := posY p3 + speedY p3\<rparr>;
          p5 = (if posX p4 < 0 then p4\<lparr>posX := fst dims\<rparr> else p4);
          p6 = (if posX p5 > fst dims then p5\<lparr>posX := 0\<rparr> else p5);
          p7 = (if posY p6 < 0 then p6\<lparr>posY := snd dims\<rparr> else p6);
          p8 = (if posY p7 > snd dims then p7\<lparr>posY := 0\<rparr> else p7)
      in p8)"

text \<open>The particle array after one frame.\<close>

definition moveParticles :: "real \<times> real \<Rightarrow> real \<Rightarrow> real \<times> real \<Rightarrow> particle list \<Rightarrow> particle list" where
  "moveParticles mouse scrollProgress dims ps = map (moveParticle mouse scrollProgress dims) ps"

section \<open>AudioReactiveGrid: the simulated audio level\<close>

text \<open>
  One run of \<^verbatim>\<open>simulateAudio\<close>: \<open>now\<close> is \<^verbatim>\<open>Date.now()\<close>, \<open>rnd\<close> the value of
  \<^verbatim>\<open>Math.random()\<close>. The result is the level stored with \<^verbatim>\<open>setAudioData\<close>.
\<close>

definition simulateAudio :: "int \<Rightarrow> real \<Rightarrow> real" where
  "simulateAudio now rnd =
     (let time = real_of_int now / 1000;
          primaryWave = sin (time * 0.5) * 0.3;
          secondaryWave = sin (time * 1.3) * 0.15;
          fastWave = sin (time * 3.7) * 0.05;
          noise = rnd * 0.1;
          simulatedLevel = (primaryWave + secondaryWave + fastWave + 0.5) * 0.5 + noise * 0.2;
          normalizedLevel = max 0 (min 1 simulatedLevel)
      in normalizedLevel)"

text \<open>
  \<^verbatim>\<open>audioData.level\<close> after a sequence of frames; it starts at 0. This is the value
  \<^verbatim>\<open>animate\<close> passes to \<^verbatim>\<open>gl.uniform1f(uniforms.audioLevel, ...)\<close>.
\<close>

definition audioLevel :: "(int \<times> real) list \<Rightarrow> real" where
  "audioLevel frames = foldl (\<lambda>level (now, rnd). simulateAudio now rnd) 0 frames"

section \<open>The browser as the renderers see it\<close>

text \<open>
  A read or a call on a null reference throws; it is the error value of the model.
  \<open>deref\<close> is such a read, \<open>andThen\<close> runs the next statement unless the one
  before threw.
\<close>

datatype jsError = TypeError

definition deref :: "'a option \<Rightarrow> jsError + 'a" where
  "deref r = (case r of None \<Rightarrow> Inl TypeError | Some v \<Rightarrow> Inr v)"

definition andThen :: "jsError + 'a \<Rightarrow> ('a \<Rightarrow> jsError + 'b) \<Rightarrow> jsError + 'b" where
  "andThen m f = (case m of Inl e \<Rightarrow> Inl e | Inr v \<Rightarrow> f v)"

fun runEvents :: "('e \<Rightarrow> 's \<Rightarrow> jsError + 's) \<Rightarrow> 'e list \<Rightarrow> 's \<Rightarrow> jsError + 's" where
  "runEvents f [] s = Inr s"
| "runEvents f (e # es) s = andThen (f e s) (runEvents f es)"

text \<open>The functions that ask for the next animation frame again and again.\<close>

datatype loop = ParticlesAnimate | SimulateAudio | GridAnimate | HeadTracking | PortalAnimate

text \<open>
  What a renderer leaves behind outside of itself: a message on the console, a frame
  drawn through a 2D context, calls on a WebGL context.
\<close>

datatype sideEffect = ConsoleError string | Canvas2D | WebGL

text \<open>
  The browser: the handle the next \<^verbatim>\<open>requestAnimationFrame\<close> returns, the callbacks
  registered for the next frame with their handles, the event listeners on
  \<^verbatim>\<open>window\<close> (event type and function), and the side effects so far. A function is
  named by the variable the effect defines it in; every effect modelled here removes
  the very function it added.
\<close>

record browser =
  nextHandle :: nat
  frameCallbacks :: "(nat \<times> loop) list"
  listeners :: "(string \<times> string) list"
  sideEffects :: "sideEffect list"

definition emptyBrowser :: browser where
  "emptyBrowser = \<lparr>nextHandle = 1, frameCallbacks = [], listeners = [], sideEffects = []\<rparr>"

definition requestAnimationFrame :: "loop \<Rightarrow> browser \<Rightarrow> nat \<times> browser" where
  "requestAnimationFrame f b =
     (nextHandle b,
      b\<lparr>nextHandle := Suc (nextHandle b),
        frameCallbacks := frameCallbacks b @ [(nextHandle b, f)]\<rparr>)"

definition cancelAnimationFrame :: "nat \<Rightarrow> browser \<Rightarrow> browser" where
  "cancelAnimationFrame h b = b\<lparr>frameCallbacks := filter (\<lambda>p. fst p \<noteq> h) (frameCallbacks b)\<rparr>"

text \<open>The browser takes the callback with handle \<open>h\<close> off the list to run it.\<close>

definition takeCallback :: "nat \<Rightarrow> browser \<Rightarrow> loop option \<times> browser" where
  "takeCallback h b = (map_of (frameCallbacks b) h, cancelAnimationFrame h b)"

definition addEventListener :: "string \<Rightarrow> string \<Rightarrow> browser \<Rightarrow> browser" where
  "addEventListener type f b =
     (if (type, f) \<in> set (listeners b) then b
      else b\<lparr>listeners := listeners b @ [(type, f)]\<rparr>)"

definition removeEventListener :: "string \<Rightarrow> string \<Rightarrow> browser \<Rightarrow> browser" where
  "removeEventListener type f b = b\<lparr>listeners := filter (\<lambda>l. l \<noteq> (type, f)) (listeners b)\<rparr>"

definition emit :: "sideEffect \<Rightarrow> browser \<Rightarrow> browser" where
  "emit x b = b\<lparr>sideEffects := sideEffects b @ [x]\<rparr>"

text \<open>
  A WebGL context, by what its driver manages to do, and a canvas element, by what
  \<^verbatim>\<open>getContext\<close> returns for \<^verbatim>\<open>'2d'\<close> (a context or null), \<^verbatim>\<open>'webgl'\<close> and
  \<^verbatim>\<open>'experimental-webgl'\<close>.
\<close>

record glDriver =
  createsShaders :: bool
  compilesVertex :: bool
  compilesFragment :: bool
  createsProgram :: bool
  linksProgram :: bool

record canvasEl =
  context2d :: bool
  webgl :: "glDriver option"
  experimentalWebgl :: "glDriver option"

section \<open>ParticlesCanvas: the life of the component\<close>

text \<open>
  \<open>pcCanvas\<close> is \<^verbatim>\<open>canvasRef.current\<close>, \<open>pcAnimationRef\<close> is
  \<^verbatim>\<open>animationRef.current\<close>, \<open>pcLoopCleanup\<close> says that the last run of the
  animation effect returned its cleanup function.
\<close>

record particlesCanvas =
  pcCanvas :: "canvasEl option"
  dimensions :: "real \<times> real"
  pcAnimationRef :: nat
  pcLoopCleanup :: bool

text \<open>\<^verbatim>\<open>animate\<close>; the drawing of a frame is one side effect.\<close>

definition pcAnimate :: "particlesCanvas \<Rightarrow> browser \<Rightarrow> particlesCanvas \<times> browser" where
  "pcAnimate c b =
     (let (h, b') = requestAnimationFrame ParticlesAnimate (emit Canvas2D b)
      in (c\<lparr>pcAnimationRef := h\<rparr>, b'))"

text \<open>The effect "Animation loop".\<close>

definition pcAnimationEffect ::
    "particlesCanvas \<Rightarrow> browser \<Rightarrow> jsError + particlesCanvas \<times> browser" where
  "pcAnimationEffect c b =
     (if pcCanvas c = None \<or> fst (dimensions c) = 0 \<or> snd (dimensions c) = 0
      then Inr (c\<lparr>pcLoopCleanup := False\<rparr>, b)
      else andThen (deref (pcCanvas c)) (\<lambda>canvas.
             if \<not> context2d canvas then Inr (c\<lparr>pcLoopCleanup := False\<rparr>, b)
             else Inr (pcAnimate (c\<lparr>pcLoopCleanup := True\<rparr>) b)))"

definition pcAnimationCleanup :: "particlesCanvas \<Rightarrow> browser \<Rightarrow> particlesCanvas \<times> browser" where
  "pcAnimationCleanup c b =
     (if pcLoopCleanup c
      then (c\<lparr>pcLoopCleanup := False\<rparr>, cancelAnimationFrame (pcAnimationRef c) b)
      else (c, b))"

text \<open>A dependency of the animation effect changed: cleanup, then the effect again.\<close>

definition pcRerun :: "particlesCanvas \<times> browser \<Rightarrow> jsError + particlesCanvas \<times> browser" where
  "pcRerun s = (let (c, b) = pcAnimationCleanup (fst s) (snd s) in pcAnimationEffect c b)"

text \<open>
  Mounting: the listener of \<^verbatim>\<open>useMousePosition\<close>, \<^verbatim>\<open>handleResize\<close> with the
  rectangle of the canvas, its listener, the animation effect of the first render
  (whose dimensions are still 0), and the render that follows \<^verbatim>\<open>setDimensions\<close>.
\<close>

definition pcMount :: "canvasEl option \<Rightarrow> real \<times> real \<Rightarrow> browser \<Rightarrow> jsError + particlesCanvas \<times> browser" where
  "pcMount canvas rect b =
     (let c = \<lparr>pcCanvas = canvas, dimensions = (0, 0), pcAnimationRef = 0,
                pcLoopCleanup = False\<rparr>;
          b1 = addEventListener ''mousemove'' ''updateMousePosition'' b;
          b2 = addEventListener ''resize'' ''handleResize'' b1
      in andThen (pcAnimationEffect c b2) (\<lambda>(c1, b3).
           if canvas = None then Inr (c1, b3)
           else pcRerun (c1\<lparr>dimensions := rect\<rparr>, b3)))"

text \<open>
  Afterwards: the window is resized and the canvas has a new rectangle; the mouse
  position or the scroll progress changes; the browser runs the frame callback with
  handle \<open>h\<close>.
\<close>

datatype pcEvent = PcResize "real \<times> real" | PcDepsChange | PcFrame nat

fun pcStep :: "pcEvent \<Rightarrow> particlesCanvas \<times> browser \<Rightarrow> jsError + particlesCanvas \<times> browser" where
  "pcStep (PcResize rect) (c, b) =
     (if pcCanvas c = None then Inr (c, b) else pcRerun (c\<lparr>dimensions := rect\<rparr>, b))"
| "pcStep PcDepsChange (c, b) = pcRerun (c, b)"
| "pcStep (PcFrame h) (c, b) =
     (case takeCallback h b of
        (Some ParticlesAnimate, b') \<Rightarrow> Inr (pcAnimate c b')
      | _ \<Rightarrow> Inr (c, b))"

definition pcUnmount :: "particlesCanvas \<times> browser \<Rightarrow> particlesCanvas \<times> browser" where
  "pcUnmount s =
     (let b1 = removeEventListener ''mousemove'' ''updateMousePosition'' (snd s);
          b2 = removeEventListener ''resize'' ''handleResize'' b1
      in pcAnimationCleanup (fst s) b2)"

text \<open>The component from mounting into an empty browser, through the events.\<close>

definition pcMounted :: "canvasEl option \<Rightarrow> real \<times> real \<Rightarrow> pcEvent list \<Rightarrow> jsError + particlesCanvas \<times> browser" where
  "pcMounted canvas rect evs = andThen (pcMount canvas rect emptyBrowser) (runEvents pcStep evs)"

definition pcLife :: "canvasEl option \<Rightarrow> real \<times> real \<Rightarrow> pcEvent list \<Rightarrow> jsError + particlesCanvas \<times> browser" where
  "pcLife canvas rect evs = andThen (pcMounted canvas rect evs) (\<lambda>s. Inr (pcUnmount s))"

section \<open>DigitalPortal: the life of the component\<close>

text \<open>
  \<open>portalCanvas\<close> is \<^verbatim>\<open>canvasRef.current\<close>, \<open>portalAnimationRef\<close> is
  \<^verbatim>\<open>animationRef.current\<close>; \<open>portalLoopCleanup\<close> and \<open>dragCleanup\<close> say that
  the last run of the simulation effect, or of the drag effect, returned its cleanup.
\<close>

record portal =
  portalCanvas :: "canvasEl option"
  isPortalOpen :: bool
  portalAnimationRef :: nat
  portalLoopCleanup :: bool
  isDragging :: bool
  dragCleanup :: bool

text \<open>\<^verbatim>\<open>animate\<close> inside \<^verbatim>\<open>startSimulation\<close>.\<close>

definition portalAnimate :: "portal \<Rightarrow> browser \<Rightarrow> jsError + portal \<times> browser" where
  "portalAnimate p b =
     (if portalCanvas p = None then Inr (p, b)
      else andThen (deref (portalCanvas p)) (\<lambda>canvas.
             let (h, b') = requestAnimationFrame PortalAnimate (emit Canvas2D b)
             in Inr (p\<lparr>portalAnimationRef := h\<rparr>, b')))"

definition startSimulation :: "portal \<Rightarrow> browser \<Rightarrow> jsError + portal \<times> browser" where
  "startSimulation p b =
     (if portalCanvas p = None then Inr (p, b)
      else andThen (deref (portalCanvas p)) (\<lambda>canvas.
             if \<not> context2d canvas then Inr (p, b)
             else andThen (deref (portalCanvas p)) (\<lambda>sized. portalAnimate p b)))"

text \<open>The effect "Start the visual simulation when portal is opened".\<close>

definition portalOpenEffect :: "portal \<Rightarrow> browser \<Rightarrow> jsError + portal \<times> browser" where
  "portalOpenEffect p b =
     (if \<not> isPortalOpen p \<or> portalCanvas p = None
      then Inr (p\<lparr>portalLoopCleanup := False\<rparr>, b)
      else andThen (startSimulation p b) (\<lambda>(p', b'). Inr (p'\<lparr>portalLoopCleanup := True\<rparr>, b')))"

definition portalOpenCleanup :: "portal \<Rightarrow> browser \<Rightarrow> portal \<times> browser" where
  "portalOpenCleanup p b =
     (if portalLoopCleanup p
      then (p\<lparr>portalLoopCleanup := False\<rparr>, cancelAnimationFrame (portalAnimationRef p) b)
      else (p, b))"

text \<open>The effect "Update portal position when dragging".\<close>

definition dragEffect :: "portal \<Rightarrow> browser \<Rightarrow> portal \<times> browser" where
  "dragEffect p b =
     (if isDragging p
      then (p\<lparr>dragCleanup := True\<rparr>, addEventListener ''mousemove'' ''handleMouseMove'' b)
      else (p\<lparr>dragCleanup := False\<rparr>, b))"

definition dragEffectCleanup :: "portal \<Rightarrow> browser \<Rightarrow> portal \<times> browser" where
  "dragEffectCleanup p b =
     (if dragCleanup p
      then (p\<lparr>dragCleanup := False\<rparr>, removeEventListener ''mousemove'' ''handleMouseMove'' b)
      else (p, b))"

definition portalMount :: "canvasEl option \<Rightarrow> browser \<Rightarrow> jsError + portal \<times> browser" where
  "portalMount canvas b =
     (let p = \<lparr>portalCanvas = canvas, isPortalOpen = False, portalAnimationRef = 0,
                portalLoopCleanup = False, isDragging = False, dragCleanup = False\<rparr>;
          b1 = addEventListener ''mousemove'' ''updateMousePosition'' b
      in andThen (portalOpenEffect p b1) (\<lambda>(p1, b2). Inr (dragEffect p1 b2)))"

text \<open>
  Afterwards: the portal is opened or closed, a drag starts or stops, the mouse moves,
  the browser runs the frame callback with handle \<open>h\<close>.
\<close>

datatype portalEvent = PSetOpen bool | PSetDragging bool | PMouseMove | PFrame nat

fun portalStep :: "portalEvent \<Rightarrow> portal \<times> browser \<Rightarrow> jsError + portal \<times> browser" where
  "portalStep (PSetOpen v) (p, b) =
     (if v = isPortalOpen p then Inr (p, b)
      else (let (p1, b1) = portalOpenCleanup (p\<lparr>isPortalOpen := v\<rparr>) b
            in portalOpenEffect p1 b1))"
| "portalStep (PSetDragging v) (p, b) =
     (if v = isDragging p then Inr (p, b)
      else (let (p1, b1) = dragEffectCleanup (p\<lparr>isDragging := v\<rparr>) b
            in Inr (dragEffect p1 b1)))"
| "portalStep PMouseMove (p, b) =
     (let (p1, b1) = dragEffectCleanup p b in Inr (dragEffect p1 b1))"
| "portalStep (PFrame h) (p, b) =
     (case takeCallback h b of
        (Some PortalAnimate, b') \<Rightarrow> portalAnimate p b'
      | _ \<Rightarrow> Inr (p, b))"

definition portalUnmount :: "portal \<times> browser \<Rightarrow> portal \<times> browser" where
  "portalUnmount s =
     (let b1 = removeEventListener ''mousemove'' ''updateMousePosition'' (snd s);
          (p1, b2) = portalOpenCleanup (fst s) b1
      in dragEffectCleanup p1 b2)"

definition portalMounted :: "canvasEl option \<Rightarrow> portalEvent list \<Rightarrow> jsError + portal \<times> browser" where
  "portalMounted canvas evs = andThen (portalMount canvas emptyBrowser) (runEvents portalStep evs)"

definition portalLife :: "canvasEl option \<Rightarrow> portalEvent list \<Rightarrow> jsError + portal \<times> browser" where
  "portalLife canvas evs = andThen (portalMounted canvas evs) (\<lambda>s. Inr (portalUnmount s))"

section \<open>EnhancedAudioReactiveGrid and AudioReactiveGrid: the life of the components\<close>

text \<open>
  The state of \<^verbatim>\<open>AudioReactiveGrid\<close>: \<open>gridCanvas\<close> is its
  \<^verbatim>\<open>canvasRef.current\<close>, \<open>glRef\<close> and \<open>programRef\<close> are the \<^verbatim>\<open>gl\<close> and
  \<^verbatim>\<open>program\<close> of \<^verbatim>\<open>glContextRef.current\<close>, \<open>audioFrameId\<close> is the variable
  \<^verbatim>\<open>animationFrameId\<close> of the audio effect, \<open>gridAnimationRef\<close> is
  \<^verbatim>\<open>animationRef.current\<close>. The state of the wrapper
  \<^verbatim>\<open>EnhancedAudioReactiveGrid\<close>: \<open>vrCanvas\<close> is its \<^verbatim>\<open>canvasRef.current\<close>,
  \<open>headTrackingCleanup\<close> the handle its cleanup holds. The flags say which effects
  returned a cleanup in their last run.
\<close>

record grid =
  gridCanvas :: "canvasEl option"
  glRef :: "glDriver option"
  programRef :: bool
  audioFrameId :: "nat option"
  audioDataLevel :: real
  gridAnimationRef :: nat
  gridLoopCleanup :: bool
  glCleanup :: bool
  vrCanvas :: "canvasEl option"
  isVRMode :: bool
  orientationCleanup :: bool
  headTrackingCleanup :: "nat option"

text \<open>\<^verbatim>\<open>simulateAudio\<close> as a frame callback.\<close>

definition simulateAudioLoop :: "int \<Rightarrow> real \<Rightarrow> grid \<Rightarrow> browser \<Rightarrow> grid \<times> browser" where
  "simulateAudioLoop now rnd g b =
     (let (h, b') = requestAnimationFrame SimulateAudio b
      in (g\<lparr>audioDataLevel := simulateAudio now rnd, audioFrameId := Some h\<rparr>, b'))"

definition handleResize :: "grid \<Rightarrow> browser \<Rightarrow> jsError + grid \<times> browser" where
  "handleResize g b =
     (if gridCanvas g = None \<or> glRef g = None then Inr (g, b)
      else andThen (deref (glRef g)) (\<lambda>gl.
           andThen (deref (gridCanvas g)) (\<lambda>canvas. Inr (g, emit WebGL b))))"

text \<open>The effect "Initialize WebGL context".\<close>

definition initWebGL :: "grid \<Rightarrow> browser \<Rightarrow> jsError + grid \<times> browser" where
  "initWebGL g b =
     (case gridCanvas g of
        None \<Rightarrow> Inr (g, b)
      | Some canvas \<Rightarrow>
          (case (case webgl canvas of Some gl \<Rightarrow> Some gl | None \<Rightarrow> experimentalWebgl canvas) of
             None \<Rightarrow> Inr (g, emit (ConsoleError ''WebGL not supported'') b)
           | Some gl \<Rightarrow>
               (let b1 = emit WebGL b
                in if \<not> createsShaders gl
                   then Inr (g, emit (ConsoleError ''Could not create shaders'') b1)
                   else if \<not> compilesVertex gl
                   then Inr (g, emit (ConsoleError ''Vertex shader compilation failed:'') b1)
                   else if \<not> compilesFragment gl
                   then Inr (g, emit (ConsoleError ''Fragment shader compilation failed:'') b1)
                   else if \<not> createsProgram gl
                   then Inr (g, emit (ConsoleError ''Could not create program'') b1)
                   else if \<not> linksProgram gl
                   then Inr (g, emit (ConsoleError ''Program linking failed:'') b1)
                   else handleResize
                          (g\<lparr>glRef := Some gl, programRef := True, glCleanup := True\<rparr>) b1)))"

text \<open>
  \<^verbatim>\<open>animate\<close> of the effect "Animation loop" and the effect itself. The closure
  holds the \<^verbatim>\<open>gl\<close> that \<^verbatim>\<open>glContextRef.current\<close> had when the effect ran; the
  reference is written once, by the initialisation, so this is \<open>glRef\<close>. The calls
  that draw a frame are one side effect.
\<close>

definition gridAnimate :: "grid \<Rightarrow> browser \<Rightarrow> jsError + grid \<times> browser" where
  "gridAnimate g b =
     (if glRef g = None \<or> gridCanvas g = None then Inr (g, b)
      else andThen (deref (glRef g)) (\<lambda>gl.
           andThen (deref (gridCanvas g)) (\<lambda>canvas.
             let (h, b') = requestAnimationFrame GridAnimate (emit WebGL b)
             in Inr (g\<lparr>gridAnimationRef := h\<rparr>, b'))))"

definition gridAnimationEffect :: "grid \<Rightarrow> browser \<Rightarrow> jsError + grid \<times> browser" where
  "gridAnimationEffect g b =
     (if glRef g = None \<or> \<not> programRef g then Inr (g\<lparr>gridLoopCleanup := False\<rparr>, b)
      else andThen (gridAnimate g b) (\<lambda>(g', b'). Inr (g'\<lparr>gridLoopCleanup := True\<rparr>, b')))"

definition gridAnimationCleanup :: "grid \<Rightarrow> browser \<Rightarrow> grid \<times> browser" where
  "gridAnimationCleanup g b =
     (if gridLoopCleanup g
      then (g\<lparr>gridLoopCleanup := False\<rparr>, cancelAnimationFrame (gridAnimationRef g) b)
      else (g, b))"

definition gridRerun :: "grid \<times> browser \<Rightarrow> jsError + grid \<times> browser" where
  "gridRerun s = (let (g, b) = gridAnimationCleanup (fst s) (snd s) in gridAnimationEffect g b)"

text \<open>The effect "Listen for device orientation events when in VR mode".\<close>

definition orientationEffect :: "grid \<Rightarrow> browser \<Rightarrow> grid \<times> browser" where
  "orientationEffect g b =
     (if \<not> isVRMode g then (g\<lparr>orientationCleanup := False\<rparr>, b)
      else (g\<lparr>orientationCleanup := True\<rparr>,
            addEventListener ''deviceorientation'' ''handleDeviceOrientation'' b))"

definition orientationEffectCleanup :: "grid \<Rightarrow> browser \<Rightarrow> grid \<times> browser" where
  "orientationEffectCleanup g b =
     (if orientationCleanup g
      then (g\<lparr>orientationCleanup := False\<rparr>,
            removeEventListener ''deviceorientation'' ''handleDeviceOrientation'' b)
      else (g, b))"

text \<open>
  The effect "Apply VR-specific styles when in VR mode" with its head-tracking loop.
  The cleanup holds the handle of the first request only; the callback asks for the
  next frame and drops the handle.
\<close>

definition vrEffect :: "grid \<Rightarrow> browser \<Rightarrow> jsError + grid \<times> browser" where
  "vrEffect g b =
     (if vrCanvas g = None then Inr (g\<lparr>headTrackingCleanup := None\<rparr>, b)
      else if isVRMode g
      then andThen (deref (vrCanvas g)) (\<lambda>canvas.
             let (h, b') = requestAnimationFrame HeadTracking b
             in Inr (g\<lparr>headTrackingCleanup := Some h\<rparr>, b'))
      else Inr (g\<lparr>headTrackingCleanup := None\<rparr>, b))"

definition vrEffectCleanup :: "grid \<Rightarrow> browser \<Rightarrow> grid \<times> browser" where
  "vrEffectCleanup g b =
     (case headTrackingCleanup g of
        None \<Rightarrow> (g, b)
      | Some h \<Rightarrow> (g\<lparr>headTrackingCleanup := None\<rparr>, cancelAnimationFrame h b))"

definition headTrackingLoop :: "grid \<Rightarrow> browser \<Rightarrow> grid \<times> browser" where
  "headTrackingLoop g b = (g, snd (requestAnimationFrame HeadTracking b))"

text \<open>
  Mounting, the effects of the inner component first. No element of the wrapper carries
  its \<^verbatim>\<open>canvasRef\<close>, so \<open>vrCanvas\<close> is null. The first \<^verbatim>\<open>simulateAudio()\<close> reads
  the clock \<open>now\<close> and the random number \<open>rnd\<close>; its \<^verbatim>\<open>setAudioData\<close> makes the
  animation effect run again at the end.
\<close>

definition gridMount :: "canvasEl option \<Rightarrow> int \<Rightarrow> real \<Rightarrow> browser \<Rightarrow> jsError + grid \<times> browser" where
  "gridMount canvas now rnd b =
     (let g = \<lparr>gridCanvas = canvas, glRef = None, programRef = False, audioFrameId = None,
                audioDataLevel = 0, gridAnimationRef = 0, gridLoopCleanup = False,
                glCleanup = False, vrCanvas = None, isVRMode = False,
                orientationCleanup = False, headTrackingCleanup = None\<rparr>;
          b1 = addEventListener ''mousemove'' ''updateMousePosition'' b;
          (g1, b2) = simulateAudioLoop now rnd g b1
      in andThen (initWebGL g1 b2) (\<lambda>(g2, b3).
         andThen (gridAnimationEffect g2 (addEventListener ''resize'' ''handleResize'' b3))
           (\<lambda>(g3, b4).
              let (g4, b5) = orientationEffect g3
                    (addEventListener ''vr-mode-toggle'' ''handleVRModeToggle'' b4)
              in andThen (vrEffect g4 b5) gridRerun)))"

text \<open>
  Afterwards: the browser runs the frame callback with handle \<open>h\<close> (the audio loop
  reads the clock and a random number, and its \<^verbatim>\<open>setAudioData\<close> makes the
  animation effect run again), the window is resized, the mouse position or the scroll
  progress changes, VR mode is switched, the device reports its orientation (which
  reaches the component only while its listener is registered).
\<close>

datatype gridEvent =
  GFrame nat int real | GResize | GDepsChange | GVRToggle bool | GDeviceOrientation

fun gridStep :: "gridEvent \<Rightarrow> grid \<times> browser \<Rightarrow> jsError + grid \<times> browser" where
  "gridStep (GFrame h now rnd) (g, b) =
     (case takeCallback h b of
        (Some SimulateAudio, b') \<Rightarrow> gridRerun (simulateAudioLoop now rnd g b')
      | (Some GridAnimate, b') \<Rightarrow> gridAnimate g b'
      | (Some HeadTracking, b') \<Rightarrow> Inr (headTrackingLoop g b')
      | _ \<Rightarrow> Inr (g, b))"
| "gridStep GResize (g, b) = handleResize g b"
| "gridStep GDepsChange (g, b) = gridRerun (g, b)"
| "gridStep (GVRToggle v) (g, b) =
     (if v = isVRMode g then Inr (g, b)
      else (let (g1, b1) = orientationEffectCleanup (g\<lparr>isVRMode := v\<rparr>) b;
                (g2, b2) = orientationEffect g1 b1;
                (g3, b3) = vrEffectCleanup g2 b2
            in vrEffect g3 b3))"
| "gridStep GDeviceOrientation (g, b) =
     (if (''deviceorientation'', ''handleDeviceOrientation'') \<in> set (listeners b)
      then (let (g1, b1) = vrEffectCleanup g b in vrEffect g1 b1)
      else Inr (g, b))"

definition gridUnmount :: "grid \<times> browser \<Rightarrow> grid \<times> browser" where
  "gridUnmount s =
     (let g = fst s;
          b1 = removeEventListener ''mousemove'' ''updateMousePosition'' (snd s);
          b2 = (case audioFrameId g of None \<Rightarrow> b1 | Some h \<Rightarrow> cancelAnimationFrame h b1);
          b3 = (if glCleanup g then emit WebGL b2 else b2);
          b4 = removeEventListener ''resize'' ''handleResize'' b3;
          (g1, b5) = gridAnimationCleanup g b4;
          b6 = removeEventListener ''vr-mode-toggle'' ''handleVRModeToggle'' b5;
          (g2, b7) = orientationEffectCleanup g1 b6
      in vrEffectCleanup g2 b7)"

definition gridMounted :: "canvasEl option \<Rightarrow> int \<Rightarrow> real \<Rightarrow> gridEvent list \<Rightarrow> jsError + grid \<times> browser" where
  "gridMounted canvas now rnd evs =
     andThen (gridMount canvas now rnd emptyBrowser) (runEvents gridStep evs)"

definition gridLife :: "canvasEl option \<Rightarrow> int \<Rightarrow> real \<Rightarrow> gridEvent list \<Rightarrow> jsError + grid \<times> browser" where
  "gridLife canvas now rnd evs =
     andThen (gridMounted canvas now rnd evs) (\<lambda>s. Inr (gridUnmount s))"

section \<open>What holds while a renderer is mounted\<close>

text \<open>
  While ParticlesCanvas is mounted: a registered frame callback is the one whose handle
  \<^verbatim>\<open>animationRef\<close> holds, and the animation effect has a cleanup pending for it;
  the listeners are those of \<^verbatim>\<open>useMousePosition\<close> and of the resize effect.
\<close>

definition pcInv :: "particlesCanvas \<times> browser \<Rightarrow> bool" where
  "pcInv s \<longleftrightarrow>
     (\<forall>p \<in> set (frameCallbacks (snd s)). pcLoopCleanup (fst s) \<and> fst p = pcAnimationRef (fst s)) \<and>
     set (listeners (snd s)) \<subseteq> {(''mousemove'', ''updateMousePosition''), (''resize'', ''handleResize'')}"

text \<open>
  ParticlesCanvas with a canvas that gives no 2D context: nothing was drawn or logged
  and no frame callback is registered.
\<close>

definition pcQuiet :: "particlesCanvas \<times> browser \<Rightarrow> bool" where
  "pcQuiet s \<longleftrightarrow> sideEffects (snd s) = [] \<and> frameCallbacks (snd s) = [] \<and>
     (\<exists>cv. pcCanvas (fst s) = Some cv \<and> \<not> context2d cv)"

text \<open>
  While DigitalPortal is mounted: a registered frame callback is the one whose handle
  \<^verbatim>\<open>animationRef\<close> holds, with the cleanup of the simulation effect pending; the
  listeners are the one of \<^verbatim>\<open>useMousePosition\<close> and, with the cleanup of the drag
  effect pending, \<^verbatim>\<open>handleMouseMove\<close>.
\<close>

definition portalInv :: "portal \<times> browser \<Rightarrow> bool" where
  "portalInv s \<longleftrightarrow>
     (\<forall>f \<in> set (frameCallbacks (snd s)).
        portalLoopCleanup (fst s) \<and> fst f = portalAnimationRef (fst s)) \<and>
     (\<forall>l \<in> set (listeners (snd s)).
        l = (''mousemove'', ''updateMousePosition'') \<or>
        dragCleanup (fst s) \<and> l = (''mousemove'', ''handleMouseMove''))"

text \<open>
  DigitalPortal with a canvas that gives no 2D context.
\<close>

definition portalQuiet :: "portal \<times> browser \<Rightarrow> bool" where
  "portalQuiet s \<longleftrightarrow> sideEffects (snd s) = [] \<and> frameCallbacks (snd s) = [] \<and>
     (\<exists>canvas. portalCanvas (fst s) = Some canvas \<and> \<not> context2d canvas)"

text \<open>
  While the grid is mounted, each registered frame callback is the audio loop under the
  handle in \<^verbatim>\<open>animationFrameId\<close>, or the grid loop under the handle in
  \<^verbatim>\<open>animationRef\<close> with the cleanup of the animation effect pending.
\<close>

definition gridFrames :: "grid \<Rightarrow> (nat \<times> loop) list \<Rightarrow> bool" where
  "gridFrames g fs \<longleftrightarrow>
     (\<forall>f \<in> set fs.
        snd f = SimulateAudio \<and> audioFrameId g = Some (fst f) \<or>
        snd f = GridAnimate \<and> gridLoopCleanup g \<and> fst f = gridAnimationRef g)"

text \<open>
  The listeners of the grid and its wrapper; the one for the device orientation only
  while its effect has a cleanup pending.
\<close>

definition gridListeners :: "grid \<Rightarrow> (string \<times> string) list \<Rightarrow> bool" where
  "gridListeners g ls \<longleftrightarrow>
     (\<forall>l \<in> set ls.
        l \<in> {(''mousemove'', ''updateMousePosition''), (''resize'', ''handleResize''),
             (''vr-mode-toggle'', ''handleVRModeToggle'')} \<or>
        orientationCleanup g \<and> l = (''deviceorientation'', ''handleDeviceOrientation''))"

text \<open>
  The wrapper's canvas reference is null, so its head-tracking loop was never started.
\<close>

definition gridInv :: "grid \<times> browser \<Rightarrow> bool" where
  "gridInv s \<longleftrightarrow>
     vrCanvas (fst s) = None \<and> headTrackingCleanup (fst s) = None \<and>
     gridFrames (fst s) (frameCallbacks (snd s)) \<and>
     gridListeners (fst s) (listeners (snd s))"

text \<open>
  The grid with a canvas that gives no WebGL context: no context is stored, the
  initialisation left no cleanup, and the only side effect is the message on the console.
\<close>

definition gridQuiet :: "grid \<times> browser \<Rightarrow> bool" where
  "gridQuiet s \<longleftrightarrow> glRef (fst s) = None \<and> \<not> glCleanup (fst s) \<and>
     sideEffects (snd s) = [ConsoleError ''WebGL not supported'']"

section \<open>States and elements used in concrete runs\<close>

text \<open>A canvas that gives no context of any kind, and one that gives all of them.\<close>

definition deadCanvas :: canvasEl where
  "deadCanvas = \<lparr>context2d = False, webgl = None, experimentalWebgl = None\<rparr>"

definition goodDriver :: glDriver where
  "goodDriver = \<lparr>createsShaders = True, compilesVertex = True, compilesFragment = True,
     createsProgram = True, linksProgram = True\<rparr>"

definition liveCanvas :: canvasEl where
  "liveCanvas = \<lparr>context2d = True, webgl = Some goodDriver, experimentalWebgl = None\<rparr>"

text \<open>The grid and its wrapper if an element did carry the wrapper's canvas reference.\<close>

definition vrGrid :: grid where
  "vrGrid = \<lparr>gridCanvas = Some liveCanvas, glRef = None, programRef = False,
     audioFrameId = None, audioDataLevel = 0, gridAnimationRef = 0, gridLoopCleanup = False,
     glCleanup = False, vrCanvas = Some liveCanvas, isVRMode = True,
     orientationCleanup = False, headTrackingCleanup = None\<rparr>"

text \<open>A particle next to the left edge that drifts to the left.\<close>

definition edgeParticle :: particle where
  "edgeParticle = \<lparr>posX = 0.1, posY = 300, radius = 2, speedX = - 0.2, speedY = 0.1,
     alpha = 0.5, hue = 220\<rparr>"

text \<open>The state after the permission was granted at 0.50 and the scroll value then moved to \<open>r\<close>.\<close>

definition expandingAt :: "real \<Rightarrow> anim" where
  "expandingAt r = run initialAnim [Scroll 0.5 0, Timeout 0 1000, Scroll r 1100]"

text \<open>The elements with only the square present, as the JSX creates it.\<close>

definition mountedDom :: dom where
  "mountedDom = \<lparr>square = Some initialSquare, smallLogo = None, videoContainer = None,
     video = None\<rparr>"

text \<open>A viewport of 1280 by 720 pixels, the logo at full scale, the clock at one second.\<close>

definition desktop :: ambient where
  "desktop = \<lparr>scale = 1, innerWidth = 1280, innerHeight = 720, dateNow = 1000\<rparr>"

text \<open>
  The state of the render in which the scroll value has come back from 0.52 to 0.50
  while the permission is missing: the stage is Fall and
  \<^verbatim>\<open>previousScrollProgress\<close> is still 0.52.
\<close>

definition scrolledBack :: anim where
  "scrolledBack = (step (Scroll 0.52 0) initialAnim)\<lparr>interpolatedScroll := 0.5\<rparr>"

text \<open>The state at 0.50 once the check has granted the permission, a second after the start.\<close>

definition grantedAtHalf :: anim where
  "grantedAtHalf = run initialAnim [Scroll 0.5 0, Timeout 0 1000]"

text \<open>
  The state of the render in which the scroll value has come back from 0.46 to 0.40:
  the stage is still Fall, and \<^verbatim>\<open>calculateStages\<close> writes a rotation by \<open>-8\<close>
  degrees.
\<close>

definition leftFall :: anim where
  "leftFall = (step (Scroll 0.46 0) initialAnim)\<lparr>interpolatedScroll := 0.4\<rparr>"

section \<open>Facts about the ranges\<close>

lemmas ANIMATION_RANGES =
  initialToAbsorb_def absorbToRelease_def releaseToFloat_def
  floatToFall_def fallToExpand_def expandToFinal_def

section \<open>Properties of the simulated audio level\<close>

lemma simulateAudio_range: "0 \<le> simulateAudio now rnd \<and> simulateAudio now rnd \<le> 1"
  by (simp add: simulateAudio_def Let_def)

text \<open>
  Claim C10. Whatever the clock readings and the random samples of the frames so far,
  the audio level handed to the shader as the \<^verbatim>\<open>audioLevel\<close> uniform lies in the
  closed interval from 0 to 1.
\<close>

theorem audioLevel_in_unit_interval:
  "0 \<le> audioLevel frames \<and> audioLevel frames \<le> 1"
proof (cases frames rule: rev_cases)
  case Nil
  then show ?thesis by (simp add: audioLevel_def)
next
  case (snoc fs f)
  obtain now rnd where f: "f = (now, rnd)" by (cases f)
  have "audioLevel frames = simulateAudio now rnd"
    by (simp add: audioLevel_def snoc f)
  then show ?thesis using simulateAudio_range [of now rnd] by simp
qed

section \<open>The stage sequence under forward scrolling\<close>

text \<open>
  The stage grows with the scroll value and with the permission; each event keeps
  \<open>settled\<close> as long as the scroll value does not go down and the clock does not
  run backwards.
\<close>

lemma stageFor_mono:
  "r \<le> r' \<Longrightarrow> (c \<longrightarrow> c') \<Longrightarrow> stageFor r c \<le> stageFor r' c'"
  by (auto simp: stageFor_def ANIMATION_RANGES)

lemma settled_initial: "settled t initialAnim"
  by (simp add: settled_def initialAnim_def stageFor_def ANIMATION_RANGES)

lemma step_scroll_settled:
  assumes "settled t st" "t \<le> now" "interpolatedScroll st \<le> r"
  shows "settled now (step (Scroll r now) st) \<and>
         animationStage st \<le> animationStage (step (Scroll r now) st) \<and>
         interpolatedScroll (step (Scroll r now) st) = r"
  using assms
  by (auto simp: settled_def fallTimerEffect_def fallDurationEffect_def checkFallDuration_def
      calculateStages_def Let_def minFallDuration_def intro!: stageFor_mono
      split: option.splits)

lemma step_timeout_settled:
  assumes "settled t st" "t \<le> now"
  shows "settled now (step (Timeout k now) st) \<and>
         animationStage st \<le> animationStage (step (Timeout k now) st) \<and>
         interpolatedScroll (step (Timeout k now) st) = interpolatedScroll st"
  using assms
  by (auto simp: settled_def fallTimerEffect_def fallDurationEffect_def checkFallDuration_def
      calculateStages_def Let_def minFallDuration_def intro!: stageFor_mono
      split: option.splits dest: in_set_takeD in_set_dropD)

lemma step_settled:
  assumes "settled t st" and "t \<le> eventTime e"
    and "sorted (interpolatedScroll st # scrolls (e # evs))"
  shows "settled (eventTime e) (step e st)"
    and "animationStage st \<le> animationStage (step e st)"
    and "sorted (interpolatedScroll (step e st) # scrolls evs)"
proof -
  have "settled (eventTime e) (step e st) \<and> animationStage st \<le> animationStage (step e st) \<and>
        sorted (interpolatedScroll (step e st) # scrolls evs)"
  proof (cases e)
    case (Scroll r now)
    from assms have le: "t \<le> now" "interpolatedScroll st \<le> r"
      by (simp_all add: Scroll)
    from step_scroll_settled [OF assms(1) le] assms(3) show ?thesis
      by (simp add: Scroll del: step.simps)
  next
    case (Timeout k now)
    from assms have le: "t \<le> now"
      by (simp add: Timeout)
    from step_timeout_settled [OF assms(1) le, of k] assms(3) show ?thesis
      by (simp add: Timeout del: step.simps)
  qed
  then show "settled (eventTime e) (step e st)"
    and "animationStage st \<le> animationStage (step e st)"
    and "sorted (interpolatedScroll (step e st) # scrolls evs)"
    by simp_all
qed

lemma emitted_settled:
  assumes "settled t st"
    and "sorted (interpolatedScroll st # scrolls evs)"
    and "sorted (t # map eventTime evs)"
  shows "sorted (animationStage st # map (\<lambda>p. animationStage (snd p)) (emitted st evs)) \<and>
         (\<forall>p \<in> set (emitted st evs). settled (fst p) (snd p))"
  using assms
proof (induction evs arbitrary: t st)
  case Nil
  then show ?case by simp
next
  case (Cons e evs)
  from Cons.prems(3) have le: "t \<le> eventTime e" and ts: "sorted (eventTime e # map eventTime evs)"
    by simp_all
  note s = step_settled [OF Cons.prems(1) le Cons.prems(2)]
  from Cons.IH [OF s(1) s(3) ts]
  have IH1: "sorted (animationStage (step e st) # map (\<lambda>p. animationStage (snd p)) (emitted (step e st) evs))"
    and IH2: "\<forall>p \<in> set (emitted (step e st) evs). settled (fst p) (snd p)"
    by simp_all
  from IH1 s(2) have "sorted (animationStage st # animationStage (step e st) #
      map (\<lambda>p. animationStage (snd p)) (emitted (step e st) evs))"
    by (simp del: step.simps) (use order_trans in blast)
  with IH2 s(1) show ?case
    by (simp del: step.simps)
qed

lemma settled_gate:
  assumes "settled t st" and "Expand \<le> animationStage st"
  shows "\<exists>t0. fallStartTime st = Some t0 \<and> t0 + 1000 \<le> t"
  using assms
  by (auto simp: settled_def stageFor_def minFallDuration_def split: option.splits if_splits)

lemma settled_held:
  assumes "settled t st" and "snd floatToFall \<le> interpolatedScroll st" and "\<not> canExpand st"
  shows "animationStage st = Fall"
  using assms
  by (auto simp: settled_def stageFor_def ANIMATION_RANGES split: option.splits if_splits)

text \<open>
  Claim C1. Start from the mounted component and let the scroll values handed to the
  stage classifier never decrease, while the clock never runs backwards; pending timer
  callbacks may run at any moment in between. Then the stages emitted never decrease
  in the order Initial, Absorb, Release, Float, Fall, Expand, Final; whenever Expand
  (or Final) is emitted, the fall timer was started at least 1000 ms before; and while
  the permission is missing the stage stays Fall, also for scroll values beyond the
  Fall range.
\<close>

theorem stages_monotone_and_gated:
  assumes "sorted (0 # scrolls evs)" and "sorted (map eventTime evs)"
  shows "sorted (map (\<lambda>p. animationStage (snd p)) (emitted initialAnim evs)) \<and>
         (\<forall>p \<in> set (emitted initialAnim evs).
            (Expand \<le> animationStage (snd p) \<longrightarrow>
               (\<exists>t0. fallStartTime (snd p) = Some t0 \<and> t0 + 1000 \<le> fst p)) \<and>
            (snd floatToFall \<le> interpolatedScroll (snd p) \<and> \<not> canExpand (snd p) \<longrightarrow>
               animationStage (snd p) = Fall))"
proof -
  obtain t where t: "sorted (t # map eventTime evs)"
  proof (cases evs)
    case Nil
    then show ?thesis using that [of 0] by simp
  next
    case (Cons e es)
    then show ?thesis using that [of "eventTime e"] assms(2) by simp
  qed
  have "sorted (interpolatedScroll initialAnim # scrolls evs)"
    using assms(1) by (simp add: initialAnim_def)
  from emitted_settled [OF settled_initial this t]
  have *: "sorted (animationStage initialAnim # map (\<lambda>p. animationStage (snd p)) (emitted initialAnim evs))"
    and **: "\<forall>p \<in> set (emitted initialAnim evs). settled (fst p) (snd p)"
    by simp_all
  from * have "sorted (map (\<lambda>p. animationStage (snd p)) (emitted initialAnim evs))"
    by simp
  then show ?thesis using ** settled_gate settled_held by blast
qed

theorem stages_monotone_and_gated_witness:
  "sorted (0 # scrolls [Scroll 0 0, Scroll 0.2 100, Scroll 0.5 200, Scroll 0.6 300,
       Timeout 0 1250, Scroll 1 1300]) \<and>
   sorted (map eventTime [Scroll 0 0, Scroll 0.2 100, Scroll 0.5 200, Scroll 0.6 300,
       Timeout 0 1250, Scroll 1 1300]) \<and>
   map (\<lambda>p. animationStage (snd p)) (emitted initialAnim [Scroll 0 0, Scroll 0.2 100,
       Scroll 0.5 200, Scroll 0.6 300, Timeout 0 1250, Scroll 1 1300]) = [0, 1, 4, 4, 5, 6] \<and>
   sorted (map (\<lambda>p. animationStage (snd p)) (emitted initialAnim [Scroll 0 0, Scroll 0.2 100,
       Scroll 0.5 200, Scroll 0.6 300, Timeout 0 1250, Scroll 1 1300]))"
proof -
  let ?evs = "[Scroll 0 0, Scroll 0.2 100, Scroll 0.5 200, Scroll 0.6 300,
       Timeout 0 1250, Scroll 1 1300]"
  have h1: "sorted (0 # scrolls ?evs)" by simp
  have h2: "sorted (map eventTime ?evs)" by simp
  have ev: "map (\<lambda>p. animationStage (snd p)) (emitted initialAnim ?evs) = [0, 1, 4, 4, 5, 6]"
    by code_simp
  show ?thesis using h1 h2 ev stages_monotone_and_gated [OF h1 h2] by (simp del: emitted.simps)
qed

section \<open>The scroll value 0.50\<close>

lemma atHalf_eq:
  "atHalf t0 = \<lparr>interpolatedScroll = 0.5, fallStartTime = Some t0, canExpand = False,
     animationStage = Fall, previousScrollProgress = 0.5, timeouts = [(t0, t0 + 1000)]\<rparr>"
  by (simp add: atHalf_def initialAnim_def fallTimerEffect_def fallDurationEffect_def
      checkFallDuration_def calculateStages_def stageFor_def ANIMATION_RANGES
      minFallDuration_def Let_def)

text \<open>
  Two things hold after every event of every run from the mounted component: the stage
  is the one the chain of comparisons gives for the current scroll value and permission,
  and the timer is unset exactly below 0.35.
\<close>

lemma step_scroll_timer:
  "fallStartTime (step (Scroll r now) st) =
     (if r < fst floatToFall then None
      else if fallStartTime st = None then Some now else fallStartTime st)"
  by (auto simp add: fallTimerEffect_def fallDurationEffect_def checkFallDuration_def
      calculateStages_def Let_def split: option.splits)

lemma step_timeout_timer:
  "fallStartTime (step (Timeout k now) st) = fallStartTime st \<and>
   interpolatedScroll (step (Timeout k now) st) = interpolatedScroll st"
  by (simp add: checkFallDuration_def calculateStages_def Let_def)

lemma classified_initial: "classified initialAnim"
  by (simp add: classified_def initialAnim_def stageFor_def ANIMATION_RANGES)

lemma step_classified:
  assumes "classified st"
  shows "classified (step e st)"
proof (cases e)
  case (Scroll r now)
  then show ?thesis
    by (auto simp add: classified_def fallTimerEffect_def fallDurationEffect_def
        checkFallDuration_def calculateStages_def Let_def split: option.splits)
next
  case (Timeout k now)
  then show ?thesis using assms
    by (auto simp add: classified_def checkFallDuration_def calculateStages_def Let_def)
qed

lemma emitted_classified:
  assumes "classified st"
  shows "\<forall>p \<in> set (emitted st evs). classified (snd p)"
  using assms
proof (induction evs arbitrary: st)
  case Nil
  then show ?case by simp
next
  case (Cons e evs)
  from step_classified [OF Cons.prems] have c: "classified (step e st)" .
  from Cons.IH [OF c] c show ?case by (simp del: step.simps)
qed

text \<open>
  A render keeps \<open>settled\<close> also when the scroll value goes down, as long as it does
  not reset a timer that is set; so \<open>settled\<close> holds throughout a run in which no
  scroll value is below 0.35 once one has been at or above it.
\<close>

lemma step_scroll_kept:
  assumes "settled t st" "t \<le> now" "fallStartTime st \<noteq> None \<longrightarrow> fst floatToFall \<le> r"
  shows "settled now (step (Scroll r now) st)"
  using assms
  by (auto simp: settled_def fallTimerEffect_def fallDurationEffect_def checkFallDuration_def
      calculateStages_def Let_def minFallDuration_def
      split: option.splits)

lemma emitted_kept:
  assumes "settled t st"
    and "sorted (t # map eventTime evs)"
    and "\<forall>r \<in> set (if fallStartTime st = None
                     then dropWhile (\<lambda>r. r < fst floatToFall) (scrolls evs)
                     else scrolls evs). fst floatToFall \<le> r"
  shows "\<forall>p \<in> set (emitted st evs). settled (fst p) (snd p)"
  using assms
proof (induction evs arbitrary: t st)
  case Nil
  then show ?case by simp
next
  case (Cons e evs)
  from Cons.prems(2) have le: "t \<le> eventTime e" and ts: "sorted (eventTime e # map eventTime evs)"
    by simp_all
  have "settled (eventTime e) (step e st) \<and>
        (\<forall>r \<in> set (if fallStartTime (step e st) = None
                     then dropWhile (\<lambda>r. r < fst floatToFall) (scrolls evs)
                     else scrolls evs). fst floatToFall \<le> r)"
  proof (cases e)
    case (Scroll r now)
    from Cons.prems(3) have ok: "fallStartTime st \<noteq> None \<longrightarrow> fst floatToFall \<le> r"
      by (auto simp add: Scroll)
    from le have le': "t \<le> now" by (simp add: Scroll)
    have s: "settled now (step (Scroll r now) st)"
      by (rule step_scroll_kept [OF Cons.prems(1) le' ok])
    have "\<forall>r \<in> set (if fallStartTime (step (Scroll r now) st) = None
                     then dropWhile (\<lambda>r. r < fst floatToFall) (scrolls evs)
                     else scrolls evs). fst floatToFall \<le> r"
      using Cons.prems(3) unfolding step_scroll_timer
      by (auto simp add: Scroll split: if_splits)
    with s show ?thesis by (simp add: Scroll del: step.simps)
  next
    case (Timeout k now)
    from le have le': "t \<le> now" by (simp add: Timeout)
    from step_timeout_settled [OF Cons.prems(1) le', of k]
    have s: "settled now (step (Timeout k now) st)" by simp
    have "\<forall>r \<in> set (if fallStartTime (step (Timeout k now) st) = None
                     then dropWhile (\<lambda>r. r < fst floatToFall) (scrolls evs)
                     else scrolls evs). fst floatToFall \<le> r"
      using Cons.prems(3) step_timeout_timer [of k now st]
      by (auto simp add: Timeout simp del: step.simps split: if_splits)
    with s show ?thesis by (simp add: Timeout del: step.simps)
  qed
  then have s: "settled (eventTime e) (step e st)"
    and k: "\<forall>r \<in> set (if fallStartTime (step e st) = None
                     then dropWhile (\<lambda>r. r < fst floatToFall) (scrolls evs)
                     else scrolls evs). fst floatToFall \<le> r"
    by simp_all
  from Cons.IH [OF s ts k] s show ?case
    by (simp del: step.simps)
qed

lemma stageFor_half: "r = 0.5 \<Longrightarrow> stageFor r c = Fall"
  by (simp add: stageFor_def ANIMATION_RANGES)

lemma stageFor_Expand:
  "(stageFor r c = Expand) = (c \<and> snd fallToExpand \<le> r \<and> r < snd expandToFinal)"
  by (auto simp add: stageFor_def ANIMATION_RANGES)

lemma displayFallProgress_half:
  "interpolatedScroll st = 0.5 \<Longrightarrow> displayFallProgress st = (if canExpand st then 1 else 0.95)"
  by (simp add: displayFallProgress_def fallProgress_def normalizeProgress_def ANIMATION_RANGES)

lemma settled_permission:
  assumes "settled t st" and "fallStartTime st = Some t0" and "canExpand st"
  shows "t0 + 1000 \<le> t"
  using assms by (simp add: settled_def minFallDuration_def)

text \<open>
  Claim C2, as amended. Take any run of renders and timer callbacks from the mounted
  component and any state \<open>snd p\<close> it emits, at the time \<open>fst p\<close>, in which the scroll
  value is 0.50. The stage is Fall, whether or not the permission to expand has been
  granted, so also when the fall timer was started 1000 ms ago or more; the fall
  progress shown is 0.95 while the permission is missing and 1 once it is granted; and
  the fall timer is set. If moreover the clock has not run backwards and the fall timer
  has not been reset in the run, that is no scroll value was below 0.35 after the first
  one at or above it, then whenever less than 1000 ms have passed since the fall timer
  started (also when none has passed) the permission is missing and the fall progress
  shown is held at 0.95. In every emitted state the stage is Expand exactly when the
  permission is granted and the scroll value is from 0.55 up to, not including, 0.65.
\<close>

theorem half_scroll_is_fall:
  assumes "p \<in> set (emitted initialAnim evs)" and "interpolatedScroll (snd p) = 0.5"
  shows "animationStage (snd p) = Fall \<and>
         displayFallProgress (snd p) = (if canExpand (snd p) then 1 else 0.95) \<and>
         (\<exists>t0. fallStartTime (snd p) = Some t0 \<and>
            (sorted (map eventTime evs) \<and>
             (\<forall>r \<in> set (dropWhile (\<lambda>r. r < fst floatToFall) (scrolls evs)). fst floatToFall \<le> r) \<and>
             fst p - t0 < 1000 \<longrightarrow>
               \<not> canExpand (snd p) \<and> displayFallProgress (snd p) = 0.95)) \<and>
         (\<forall>q \<in> set (emitted initialAnim evs).
            (animationStage (snd q) = Expand) =
              (canExpand (snd q) \<and> snd fallToExpand \<le> interpolatedScroll (snd q) \<and>
               interpolatedScroll (snd q) < snd expandToFinal))"
proof -
  note cl = emitted_classified [OF classified_initial, of evs]
  from cl assms(1) have c: "classified (snd p)" by blast
  from c have "animationStage (snd p) = stageFor (interpolatedScroll (snd p)) (canExpand (snd p))"
    by (simp add: classified_def)
  with stageFor_half [OF assms(2)] have stage: "animationStage (snd p) = Fall"
    by simp
  note shown = displayFallProgress_half [OF assms(2)]
  from c assms(2) obtain t0 where t0: "fallStartTime (snd p) = Some t0"
    by (auto simp add: classified_def ANIMATION_RANGES)
  have gate: "\<not> canExpand (snd p) \<and> displayFallProgress (snd p) = 0.95"
    if ts: "sorted (map eventTime evs)"
      and kept: "\<forall>r \<in> set (dropWhile (\<lambda>r. r < fst floatToFall) (scrolls evs)). fst floatToFall \<le> r"
      and early: "fst p - t0 < 1000"
  proof -
    obtain t where t: "sorted (t # map eventTime evs)"
    proof (cases evs)
      case Nil
      then show ?thesis using that [of 0] by simp
    next
      case (Cons e es)
      then show ?thesis using that [of "eventTime e"] ts by simp
    qed
    have k: "\<forall>r \<in> set (if fallStartTime initialAnim = None
                     then dropWhile (\<lambda>r. r < fst floatToFall) (scrolls evs)
                     else scrolls evs). fst floatToFall \<le> r"
      using kept by (simp add: initialAnim_def)
    from emitted_kept [OF settled_initial t k] assms(1)
    have "settled (fst p) (snd p)" by blast
    from settled_permission [OF this t0] early have "\<not> canExpand (snd p)"
      by auto
    with shown show ?thesis by simp
  qed
  have "\<forall>q \<in> set (emitted initialAnim evs).
            (animationStage (snd q) = Expand) =
              (canExpand (snd q) \<and> snd fallToExpand \<le> interpolatedScroll (snd q) \<and>
               interpolatedScroll (snd q) < snd expandToFinal)"
    using cl by (auto simp add: classified_def stageFor_Expand)
  with stage shown t0 gate show ?thesis
    by blast
qed

text \<open>
  A run that meets the hypotheses: the timer starts at 0.40, in the Float stage, at time
  0; the scroll value reaches 0.50, goes back to 0.45 and returns to 0.50; the check
  runs at 700, too early to grant the permission.
\<close>

theorem half_scroll_is_fall_witness:
  "(700, run initialAnim [Scroll 0.4 0, Scroll 0.5 300, Scroll 0.45 400, Scroll 0.5 500,
       Timeout 0 700])
     \<in> set (emitted initialAnim [Scroll 0.4 0, Scroll 0.5 300, Scroll 0.45 400, Scroll 0.5 500,
       Timeout 0 700]) \<and>
   interpolatedScroll (run initialAnim [Scroll 0.4 0, Scroll 0.5 300, Scroll 0.45 400,
       Scroll 0.5 500, Timeout 0 700]) = 0.5 \<and>
   sorted (map eventTime [Scroll 0.4 0, Scroll 0.5 300, Scroll 0.45 400, Scroll 0.5 500,
       Timeout 0 700]) \<and>
   dropWhile (\<lambda>r. r < fst floatToFall) (scrolls [Scroll 0.4 0, Scroll 0.5 300, Scroll 0.45 400,
       Scroll 0.5 500, Timeout 0 700]) = [0.4, 0.5, 0.45, 0.5] \<and>
   fallStartTime (run initialAnim [Scroll 0.4 0, Scroll 0.5 300, Scroll 0.45 400,
       Scroll 0.5 500, Timeout 0 700]) = Some 0 \<and>
   (700::int) - 0 < 1000 \<and>
   animationStage (run initialAnim [Scroll 0.4 0, Scroll 0.5 300, Scroll 0.45 400,
       Scroll 0.5 500, Timeout 0 700]) = Fall \<and>
   displayFallProgress (run initialAnim [Scroll 0.4 0, Scroll 0.5 300, Scroll 0.45 400,
       Scroll 0.5 500, Timeout 0 700]) = 0.95"
proof -
  let ?evs = "[Scroll 0.4 0, Scroll 0.5 300, Scroll 0.45 400, Scroll 0.5 500, Timeout 0 700]"
  have h1: "(700, run initialAnim ?evs) \<in> set (emitted initialAnim ?evs)"
    by code_simp
  have h2: "interpolatedScroll (snd (700::int, run initialAnim ?evs)) = 0.5"
    by code_simp
  have h3: "sorted (map eventTime ?evs)"
    by simp
  have d: "dropWhile (\<lambda>r. r < fst floatToFall) (scrolls ?evs) = [0.4, 0.5, 0.45, 0.5]"
    by (simp add: ANIMATION_RANGES)
  have h4: "\<forall>r \<in> set (dropWhile (\<lambda>r. r < fst floatToFall) (scrolls ?evs)). fst floatToFall \<le> r"
    unfolding d by (simp add: ANIMATION_RANGES)
  have t0: "fallStartTime (run initialAnim ?evs) = Some 0"
    by code_simp
  from half_scroll_is_fall [OF h1 h2] h3 h4 t0 h2 d show ?thesis
    using h1 by (simp del: run.simps emitted.simps scrolls.simps)
qed

text \<open>
  Claim C2 fails as stated. The timer was started at time 0, the check ran 1200 ms
  later and granted the permission, and at the scroll value 0.50 the stage is Fall,
  not Expand. The cap, too, does not hold in every run: here the timer starts at 0, is
  reset at 500 and starts again at 600; the check scheduled for the first start runs at
  1000, and 400 ms after the timer started the fall progress shown is 1, not 0.95.
\<close>

theorem expand_at_half_counterexample:
  "fallStartTime (run initialAnim [Scroll 0.5 0, Timeout 0 1200]) = Some 0 \<and>
   canExpand (run initialAnim [Scroll 0.5 0, Timeout 0 1200]) \<and>
   interpolatedScroll (run initialAnim [Scroll 0.5 0, Timeout 0 1200]) = 0.5 \<and>
   animationStage (run initialAnim [Scroll 0.5 0, Timeout 0 1200]) = Fall \<and>
   animationStage (run initialAnim [Scroll 0.5 0, Timeout 0 1200]) \<noteq> Expand \<and>
   interpolatedScroll (run initialAnim [Scroll 0.5 0, Scroll 0.2 500, Scroll 0.5 600,
      Timeout 0 1000]) = 0.5 \<and>
   fallStartTime (run initialAnim [Scroll 0.5 0, Scroll 0.2 500, Scroll 0.5 600,
      Timeout 0 1000]) = Some 600 \<and>
   displayFallProgress (run initialAnim [Scroll 0.5 0, Scroll 0.2 500, Scroll 0.5 600,
      Timeout 0 1000]) = 1"
  by code_simp

section \<open>Resetting the fall timer\<close>




text \<open>
  Claim C4 fails as stated: at the scroll value 0.40 the stage is Float, which is
  earlier than Fall, and the fall timer is set.
\<close>

theorem timer_set_in_float_counterexample:
  "animationStage (step (Scroll 0.4 0) initialAnim) = Float \<and>
   fallStartTime (step (Scroll 0.4 0) initialAnim) = Some 0"
  by code_simp

text \<open>
  Claim C4, as amended. After a render with a new scroll value and its effects, the
  fall timer is unset exactly when the stage is earlier than Float (Initial, Absorb or
  Release), that is when the scroll value is below 0.35; from 0.35 on, so already in
  the Float stage, it is set: to the clock of that render if it was unset before, and
  unchanged otherwise.
\<close>

theorem timer_unset_iff_before_float:
  "(fallStartTime (step (Scroll r now) st) = None) = (animationStage (step (Scroll r now) st) < Float) \<and>
   (animationStage (step (Scroll r now) st) < Float) = (r < fst floatToFall) \<and>
   fallStartTime (step (Scroll r now) st) =
     (if r < fst floatToFall then None
      else if fallStartTime st = None then Some now else fallStartTime st)"
  by (auto simp add: fallTimerEffect_def fallDurationEffect_def checkFallDuration_def
      calculateStages_def stageFor_def ANIMATION_RANGES minFallDuration_def Let_def
      split: option.splits)

theorem timer_unset_iff_before_float_witness:
  "fallStartTime (step (Scroll 0.3 10) initialAnim) = None \<and>
   animationStage (step (Scroll 0.3 10) initialAnim) < Float \<and>
   fallStartTime (step (Scroll 0.36 10) initialAnim) = Some 10"
  using timer_unset_iff_before_float [of "0.3" 10 initialAnim]
    timer_unset_iff_before_float [of "0.36" 10 initialAnim]
  by (simp add: ANIMATION_RANGES initialAnim_def del: step.simps)

section \<open>Particles and the canvas bounds\<close>

lemma sqrt_less_100: "sqrt x < 100 \<longleftrightarrow> x < 10000"
proof -
  have "sqrt 10000 = 100"
    by (rule real_sqrt_unique) simp_all
  then show ?thesis
    using real_sqrt_less_iff [of x 10000] by simp
qed

lemma moveParticle_bounds:
  assumes "0 \<le> fst dims" and "0 \<le> snd dims"
  shows "0 \<le> posX (moveParticle mouse scrollProgress dims p) \<and>
         posX (moveParticle mouse scrollProgress dims p) \<le> fst dims \<and>
         0 \<le> posY (moveParticle mouse scrollProgress dims p) \<and>
         posY (moveParticle mouse scrollProgress dims p) \<le> snd dims"
  using assms by (simp add: moveParticle_def Let_def)

text \<open>
  Claim C5, as amended. For a canvas of non-negative width and height, every particle
  of the field lies, after the boundary handling of a frame, in the closed rectangle
  from 0 to the width and from 0 to the height: no coordinate is negative and none
  exceeds the canvas dimension; a coordinate may be equal to it.
\<close>

theorem particles_within_closed_canvas:
  assumes "0 \<le> fst dims" and "0 \<le> snd dims"
    and "q \<in> set (moveParticles mouse scrollProgress dims ps)"
  shows "0 \<le> posX q \<and> posX q \<le> fst dims \<and> 0 \<le> posY q \<and> posY q \<le> snd dims"
proof -
  from assms(3) obtain p where "q = moveParticle mouse scrollProgress dims p"
    by (auto simp: moveParticles_def)
  then show ?thesis using moveParticle_bounds [OF assms(1,2)] by simp
qed

lemma edgeParticle_moved:
  "moveParticle (1000, 1000) 0 (800, 600) edgeParticle =
     \<lparr>posX = 800, posY = 300.1, radius = 2, speedX = - 0.2, speedY = 0.1,
      alpha = 0.5, hue = 220\<rparr>"
  by (simp add: moveParticle_def edgeParticle_def Let_def sqrt_less_100)

text \<open>
  The claim as stated fails: a particle that leaves the canvas on the left is put at
  the horizontal position \<open>width\<close>, which is not below the width.
\<close>

theorem particle_on_right_edge_counterexample:
  "posX (moveParticle (1000, 1000) 0 (800, 600) edgeParticle) = 800 \<and>
   \<not> posX (moveParticle (1000, 1000) 0 (800, 600) edgeParticle) < fst (800, 600)"
  by (simp add: edgeParticle_moved)

theorem particles_within_closed_canvas_witness:
  "(0::real) \<le> fst (800::real, 600::real) \<and> (0::real) \<le> snd (800::real, 600::real) \<and>
   moveParticle (1000, 1000) 0 (800, 600) edgeParticle
     \<in> set (moveParticles (1000, 1000) 0 (800, 600) [edgeParticle]) \<and>
   posX (moveParticle (1000, 1000) 0 (800, 600) edgeParticle) \<le> fst (800::real, 600::real)"
proof -
  have h1: "(0::real) \<le> fst (800::real, 600::real)" by simp
  have h2: "(0::real) \<le> snd (800::real, 600::real)" by simp
  have h3: "moveParticle (1000, 1000) 0 (800, 600) edgeParticle
     \<in> set (moveParticles (1000, 1000) 0 (800, 600) [edgeParticle])"
    by (simp add: moveParticles_def)
  show ?thesis
    using h1 h2 h3 particles_within_closed_canvas [OF h1 h2 h3] by blast
qed

section \<open>The colour of the expanding square\<close>

lemma normalizeProgress_unit: "0 \<le> normalizeProgress c lo hi \<and> normalizeProgress c lo hi \<le> 1"
  by (simp add: normalizeProgress_def)

lemma expansionProgress_unit: "0 \<le> expansionProgress st \<and> expansionProgress st \<le> 1"
  using normalizeProgress_unit
  by (simp add: expansionProgress_def expandProgress_def finalProgress_def)

lemma easeOutQuint_unit:
  assumes "0 \<le> x" and "x \<le> 1"
  shows "0 \<le> easeOutQuint x \<and> easeOutQuint x \<le> 1"
proof -
  have "0 \<le> 1 - x" "1 - x \<le> 1" using assms by simp_all
  then have "0 \<le> (1 - x) ^ 5" "(1 - x) ^ 5 \<le> 1"
    by (simp_all add: power_le_one)
  then show ?thesis by (simp add: easeOutQuint_def)
qed

lemma easeOutQuint_mono:
  assumes "0 \<le> x" and "x \<le> y" and "y \<le> 1"
  shows "easeOutQuint x \<le> easeOutQuint y"
proof -
  have "0 \<le> 1 - y" "1 - y \<le> 1 - x" using assms by simp_all
  then have "(1 - y) ^ 5 \<le> (1 - x) ^ 5"
    by (rule power_mono [rotated])
  then show ?thesis by (simp add: easeOutQuint_def)
qed

lemma easeOutQuint_ends: "easeOutQuint 0 = 0 \<and> easeOutQuint 1 = 1"
  by (simp add: easeOutQuint_def)

lemma expanding_color:
  assumes "Expand \<le> animationStage st" and "canExpand st" and "square d = Some sq"
  shows "squareColor (applyStyles st env d) =
           Some (255 * (1 - easeOutQuint (expansionProgress st)), 0, 0)"
proof -
  have "easeOutQuint (expansionProgress st) \<le> 1"
    using easeOutQuint_unit expansionProgress_unit by blast
  then have "max 0 (255 * (1 - easeOutQuint (expansionProgress st)))
      = 255 * (1 - easeOutQuint (expansionProgress st))"
    by simp
  then show ?thesis
    using assms
    by (simp add: squareColor_def applyStyles_def squareExpand_def setOpacity_def Let_def)
qed

text \<open>
  Claim C6. In the Expand and Final stages the background colour of the square has the
  red channel \<open>255 * (1 - e)\<close>, where \<open>e\<close> is the eased expansion progress, and
  green and blue 0. For two raw progress values, the first not above the second, the
  red channel at the second is not above the red channel at the first, and both lie
  between 0 and 255.
\<close>

theorem expand_color_red_to_black:
  assumes "Expand \<le> animationStage st1" and "canExpand st1" and "square d1 = Some sq1"
    and "Expand \<le> animationStage st2" and "canExpand st2" and "square d2 = Some sq2"
    and "expansionProgress st1 \<le> expansionProgress st2"
  shows "\<exists>r1 r2.
           squareColor (applyStyles st1 env1 d1) = Some (r1, 0, 0) \<and>
           squareColor (applyStyles st2 env2 d2) = Some (r2, 0, 0) \<and>
           r1 = 255 * (1 - easeOutQuint (expansionProgress st1)) \<and>
           r2 = 255 * (1 - easeOutQuint (expansionProgress st2)) \<and>
           0 \<le> r2 \<and> r2 \<le> r1 \<and> r1 \<le> 255"
proof -
  have u1: "0 \<le> expansionProgress st1" and u2: "expansionProgress st2 \<le> 1"
    using expansionProgress_unit by simp_all
  have m: "easeOutQuint (expansionProgress st1) \<le> easeOutQuint (expansionProgress st2)"
    by (rule easeOutQuint_mono [OF u1 assms(7) u2])
  have "0 \<le> easeOutQuint (expansionProgress st1)" "easeOutQuint (expansionProgress st2) \<le> 1"
    using easeOutQuint_unit expansionProgress_unit by simp_all
  with m expanding_color [OF assms(1-3)] expanding_color [OF assms(4-6)]
  show ?thesis by simp
qed

lemma expandingAt_056:
  "expandingAt 0.56 = \<lparr>interpolatedScroll = 0.56, fallStartTime = Some 0, canExpand = True,
     animationStage = Expand, previousScrollProgress = 0.56, timeouts = []\<rparr>"
  unfolding expandingAt_def by code_simp

lemma expandingAt_06:
  "expandingAt 0.6 = \<lparr>interpolatedScroll = 0.6, fallStartTime = Some 0, canExpand = True,
     animationStage = Expand, previousScrollProgress = 0.6, timeouts = []\<rparr>"
  unfolding expandingAt_def by code_simp

theorem expand_color_red_to_black_witness:
  "Expand \<le> animationStage (expandingAt 0.56) \<and> canExpand (expandingAt 0.56) \<and>
   Expand \<le> animationStage (expandingAt 0.6) \<and> canExpand (expandingAt 0.6) \<and>
   square mountedDom = Some initialSquare \<and>
   expansionProgress (expandingAt 0.56) \<le> expansionProgress (expandingAt 0.6) \<and>
   (\<exists>r1 r2.
      squareColor (applyStyles (expandingAt 0.56) desktop mountedDom) = Some (r1, 0, 0) \<and>
      squareColor (applyStyles (expandingAt 0.6) desktop mountedDom) = Some (r2, 0, 0) \<and>
      r2 \<le> r1)"
proof -
  have h1: "Expand \<le> animationStage (expandingAt 0.56)" unfolding expandingAt_056 by simp
  have h2: "canExpand (expandingAt 0.56)" unfolding expandingAt_056 by simp
  have h3: "square mountedDom = Some initialSquare" by (simp add: mountedDom_def)
  have h4: "Expand \<le> animationStage (expandingAt 0.6)" unfolding expandingAt_06 by simp
  have h5: "canExpand (expandingAt 0.6)" unfolding expandingAt_06 by simp
  have h6: "expansionProgress (expandingAt 0.56) \<le> expansionProgress (expandingAt 0.6)"
    unfolding expandingAt_056 expandingAt_06
    by (simp add: expansionProgress_def expandProgress_def normalizeProgress_def
        ANIMATION_RANGES)
  from expand_color_red_to_black [OF h1 h2 h3 h4 h5 h3 h6, of desktop desktop]
  have "\<exists>r1 r2.
      squareColor (applyStyles (expandingAt 0.56) desktop mountedDom) = Some (r1, 0, 0) \<and>
      squareColor (applyStyles (expandingAt 0.6) desktop mountedDom) = Some (r2, 0, 0) \<and>
      r2 \<le> r1"
    by blast
  with h1 h2 h3 h4 h5 h6 show ?thesis by blast
qed

section \<open>Repeating the style computation\<close>

lemmas style_defs = applyStyles_def Let_def setOpacity_def squareExpand_def squareFall_def
  squareReleaseFloat_def smallLogoStyle_def squareHide_def

lemmas progress_defs = displayFallProgress_def fallProgress_def normalizeProgress_def
  ANIMATION_RANGES easeInQuint_def expansionProgress_def expandProgress_def finalProgress_def

lemma applyStyles_idem: "applyStyles st env (applyStyles st env d) = applyStyles st env d"
proof (cases "square d")
  case None
  then show ?thesis by (simp add: applyStyles_def)
next
  case sq: (Some sq)
  consider "animationStage st < 2" | "animationStage st = 2" | "animationStage st = 3"
    | "animationStage st = 4" | "animationStage st = 5" | "6 \<le> animationStage st"
    by linarith
  then show ?thesis
  proof cases
    case 1
    with sq show ?thesis
      by (cases "smallLogo d") (simp_all add: style_defs)
  next
    case 2
    with sq show ?thesis
      by (cases "smallLogo d") (simp_all add: style_defs)
  next
    case 3
    with sq show ?thesis
      by (cases "smallLogo d") (simp_all add: style_defs)
  next
    case 4
    with sq show ?thesis
      by (cases "smallLogo d") (simp_all add: style_defs)
  next
    case 5
    with sq show ?thesis
      by (cases "smallLogo d"; cases "videoContainer d"; cases "video d")
         (simp_all add: style_defs)
  next
    case 6
    with sq show ?thesis
      by (cases "smallLogo d"; cases "videoContainer d"; cases "video d")
         (simp_all add: style_defs)
  qed
qed

text \<open>
  What the style writes read of the state: the stage, the scroll value, the permission,
  and whether \<^verbatim>\<open>previousScrollProgress\<close> is above the scroll value.
\<close>

lemma applyStyles_inputs:
  assumes "animationStage st = animationStage st'"
    and "interpolatedScroll st = interpolatedScroll st'"
    and "canExpand st = canExpand st'"
    and "(previousScrollProgress st > interpolatedScroll st)
           = (previousScrollProgress st' > interpolatedScroll st')"
  shows "applyStyles st env d = applyStyles st' env d"
proof -
  have p: "absorbProgress st = absorbProgress st'" "expansionProgress st = expansionProgress st'"
    "displayFallProgress st = displayFallProgress st'"
    using assms(1-3)
    by (simp_all add: absorbProgress_def expansionProgress_def expandProgress_def
        finalProgress_def displayFallProgress_def fallProgress_def)
  have q: "squareExpand st env = squareExpand st' env" "squareFall st env = squareFall st' env"
    "squareReleaseFloat st env = squareReleaseFloat st' env"
    "smallLogoStyle st env = smallLogoStyle st' env"
    using assms
    by (simp_all add: squareExpand_def squareFall_def squareReleaseFloat_def smallLogoStyle_def
        p fun_eq_iff)
  show ?thesis
  proof (cases "square d")
    case None
    then show ?thesis by (simp add: applyStyles_def)
  next
    case (Some sq)
    then show ?thesis
      by (simp only: applyStyles_def option.case assms(1) assms(3) p q)
  qed
qed

lemma calculateStages_idem: "calculateStages (calculateStages st) = calculateStages st"
  by (simp add: calculateStages_def)

lemma calculateStagesEffect_repeats:
  "calculateStagesEffect env (calculateStagesEffect env (calculateStagesEffect env sd))
     = calculateStagesEffect env (calculateStagesEffect env sd)"
  by (simp add: calculateStagesEffect_def calculateStages_idem applyStyles_idem)

lemma animateEffects_idem:
  assumes "stage \<noteq> Fall"
  shows "animateEffects fmt stage now (animateEffects fmt stage now d) = animateEffects fmt stage now d"
  using assms by (cases "square d") (simp_all add: animateEffects_def)

lemma animateEffects_fall:
  assumes "square d = Some sq" and "transform sq = Rotate r"
    and "parseFloat (stripNonNumeric (cssText fmt (Rotate r))) = Some base"
  shows "animateEffects fmt Fall now d =
           d\<lparr>square := Some (sq\<lparr>transform := Rotate (base + sin (real_of_int now / 200) * 1.5 * 0.1)\<rparr>)\<rparr>"
  using assms by (simp add: animateEffects_def cssText_def Let_def)

text \<open>The states of the concrete runs, and what is written in them.\<close>

lemma scrolledBack_eq:
  "scrolledBack = \<lparr>interpolatedScroll = 0.5, fallStartTime = Some 0, canExpand = False,
     animationStage = Fall, previousScrollProgress = 0.52, timeouts = [(0, 1000)]\<rparr>"
  by code_simp

lemma grantedAtHalf_eq:
  "grantedAtHalf = \<lparr>interpolatedScroll = 0.5, fallStartTime = Some 0, canExpand = True,
     animationStage = Fall, previousScrollProgress = 0.5, timeouts = []\<rparr>"
  by code_simp

lemma leftFall_eq:
  "leftFall = \<lparr>interpolatedScroll = 0.4, fallStartTime = Some 0, canExpand = False,
     animationStage = Fall, previousScrollProgress = 0.46, timeouts = [(0, 1000)]\<rparr>"
  by code_simp

lemma sin_095_pos: "0 < sin (0.95 * pi)"
  by (rule sin_gt_zero) simp_all

lemma sin_half_pos: "0 < sin (1 / 2 :: real)"
  by (rule sin_gt_zero) (use pi_ge_two in simp_all)

lemma scrolledBack_first:
  "calculateStagesEffect desktop (scrolledBack, mountedDom) =
     (scrolledBack\<lparr>previousScrollProgress := 0.5\<rparr>,
      \<lparr>square = Some \<lparr>cssWidth = Some 64, cssHeight = Some 64, cssLeft = Some 512,
         cssTop = Some (71198079 / 200000), cssOpacity = Some 1,
         backgroundColor = Some (220, 38, 38), transform = Rotate (- (8 * sin (0.95 * pi))),
         boxShadow = Some (Shadow 0 (2476099 / 160000) 15 (0, 0, 0, 7428297 / 32000000))\<rparr>,
       smallLogo = None, videoContainer = None, video = None\<rparr>)"
  by (simp add: calculateStagesEffect_def calculateStages_def stageFor_def scrolledBack_eq
      style_defs desktop_def mountedDom_def initialSquare_def progress_defs)

lemma scrolledBack_second:
  "calculateStagesEffect desktop (calculateStagesEffect desktop (scrolledBack, mountedDom)) =
     (scrolledBack\<lparr>previousScrollProgress := 0.5\<rparr>,
      \<lparr>square = Some \<lparr>cssWidth = Some 64, cssHeight = Some 64, cssLeft = Some 512,
         cssTop = Some (71198079 / 200000), cssOpacity = Some 1,
         backgroundColor = Some (220, 38, 38), transform = Rotate (8 * sin (0.95 * pi)),
         boxShadow = Some (Shadow 0 (2476099 / 160000) 15 (0, 0, 0, 7428297 / 32000000))\<rparr>,
       smallLogo = None, videoContainer = None, video = None\<rparr>)"
  unfolding scrolledBack_first
  by (simp add: calculateStagesEffect_def calculateStages_def stageFor_def scrolledBack_eq
      style_defs desktop_def progress_defs)

lemma granted_styles:
  "applyStyles grantedAtHalf desktop mountedDom =
     \<lparr>square = Some \<lparr>cssWidth = Some 64, cssHeight = Some 64, cssLeft = Some 512,
        cssTop = Some 432, cssOpacity = Some 1, backgroundColor = Some (220, 38, 38),
        transform = Rotate 0, boxShadow = Some (Shadow 0 20 15 (0, 0, 0, 3 / 10))\<rparr>,
      smallLogo = None, videoContainer = None, video = None\<rparr>"
  by (simp add: grantedAtHalf_eq style_defs desktop_def mountedDom_def initialSquare_def
      progress_defs)

lemma integerText_0: "integerText 0 = ''0''"
  by code_simp

lemma read_back_0:
  "parseFloat (stripNonNumeric (cssText integerText (Rotate 0))) = Some 0"
  by (simp add: cssText_def integerText_0 stripNonNumeric_def parseFloat_def isDigit_def
      digitsValue_def Let_def)

lemma includes_rotate: "includesText ''rotate'' (cssText fmt (Rotate r))"
  by (simp add: cssText_def)

lemma granted_frame:
  "animateEffects integerText Fall 100 (applyStyles grantedAtHalf desktop mountedDom) =
     \<lparr>square = Some \<lparr>cssWidth = Some 64, cssHeight = Some 64, cssLeft = Some 512,
        cssTop = Some 432, cssOpacity = Some 1, backgroundColor = Some (220, 38, 38),
        transform = Rotate (sin (1 / 2) * 1.5 * 0.1),
        boxShadow = Some (Shadow 0 20 15 (0, 0, 0, 3 / 10))\<rparr>,
      smallLogo = None, videoContainer = None, video = None\<rparr>"
  unfolding granted_styles
  by (simp add: animateEffects_def includes_rotate read_back_0 Let_def)

text \<open>
  The text that \<^verbatim>\<open>animateEffects\<close> reads back keeps the digit of
  \<^verbatim>\<open>translateZ(0)\<close>. In the render in which the scroll value has come back from
  0.46 to 0.40 the stage is still Fall and \<^verbatim>\<open>calculateStages\<close> writes
  \<^verbatim>\<open>rotate(-8deg) translateZ(0)\<close>; what is read back from it is \<open>-80\<close>, and from
  \<^verbatim>\<open>rotate(-80deg) translateZ(0)\<close> it is \<open>-800\<close>.
\<close>

lemma leftFall_dom:
  "applyStyles leftFall desktop mountedDom =
     \<lparr>square = Some \<lparr>cssWidth = Some 64, cssHeight = Some 64, cssLeft = Some 512,
        cssTop = Some (213 / 2), cssOpacity = Some 1, backgroundColor = Some (220, 38, 38),
        transform = Rotate (- 8), boxShadow = Some (Shadow 0 (5 / 8) 15 (0, 0, 0, 3 / 320))\<rparr>,
      smallLogo = None, videoContainer = None, video = None\<rparr>"
  by (simp add: leftFall_eq style_defs desktop_def mountedDom_def initialSquare_def
      progress_defs)

lemma integerText_minus: "integerText (- 8) = ''-8'' \<and> integerText (- 80) = ''-80''"
  by code_simp

lemma read_back_glued:
  "parseFloat (stripNonNumeric (cssText integerText (Rotate (- 8)))) = Some (- 80) \<and>
   parseFloat (stripNonNumeric (cssText integerText (Rotate (- 80)))) = Some (- 800)"
  by (simp add: cssText_def integerText_minus stripNonNumeric_def parseFloat_def isDigit_def
      digitsValue_def Let_def)

lemma leftFall_frame:
  "animateEffects integerText Fall 0 (applyStyles leftFall desktop mountedDom) =
     \<lparr>square = Some \<lparr>cssWidth = Some 64, cssHeight = Some 64, cssLeft = Some 512,
        cssTop = Some (213 / 2), cssOpacity = Some 1, backgroundColor = Some (220, 38, 38),
        transform = Rotate (- 80), boxShadow = Some (Shadow 0 (5 / 8) 15 (0, 0, 0, 3 / 320))\<rparr>,
      smallLogo = None, videoContainer = None, video = None\<rparr>"
  unfolding leftFall_dom
  by (simp add: animateEffects_def includes_rotate read_back_glued Let_def)

lemma leftFall_frames:
  "animateEffects integerText Fall 0
       (animateEffects integerText Fall 0 (applyStyles leftFall desktop mountedDom)) =
     \<lparr>square = Some \<lparr>cssWidth = Some 64, cssHeight = Some 64, cssLeft = Some 512,
        cssTop = Some (213 / 2), cssOpacity = Some 1, backgroundColor = Some (220, 38, 38),
        transform = Rotate (- 800), boxShadow = Some (Shadow 0 (5 / 8) 15 (0, 0, 0, 3 / 320))\<rparr>,
      smallLogo = None, videoContainer = None, video = None\<rparr>"
  unfolding leftFall_frame
  by (simp add: animateEffects_def includes_rotate read_back_glued Let_def)

text \<open>
  Claim C7 fails as stated. A run of \<^verbatim>\<open>calculateStages\<close> stores the scroll value in
  \<^verbatim>\<open>previousScrollProgress\<close>, the rotation of its Fall branch reads it, and the
  effect runs again when it has changed. In the render in which the scroll value has
  come back from 0.52 to 0.50, the first run writes a rotation by \<open>-8 sin (0.95 \<pi>)\<close>
  degrees and the second run, with the same stage, fall progress, scroll value, clock
  and viewport, one by \<open>+8 sin (0.95 \<pi>)\<close>. The callback \<^verbatim>\<open>animateEffects\<close> in the
  Fall stage starts from what the element carries: on the rotation by 0 degrees that
  \<^verbatim>\<open>calculateStages\<close> has written at 0.50 with the permission granted, the call at
  the clock reading 100 writes a rotation by \<open>0.15 sin (1/2)\<close> degrees; and on the
  rotation by \<open>-8\<close> degrees written after the scroll value has come back from 0.46 to
  0.40, two calls at the clock reading 0 write \<open>-80\<close> and then \<open>-800\<close> degrees.
\<close>

theorem fall_rotation_flips_counterexample:
  "animationStage (fst (calculateStagesEffect desktop (scrolledBack, mountedDom))) = Fall \<and>
   animationStage scrolledBack = Fall \<and>
   interpolatedScroll (fst (calculateStagesEffect desktop (scrolledBack, mountedDom))) = 0.5 \<and>
   interpolatedScroll scrolledBack = 0.5 \<and>
   displayFallProgress (fst (calculateStagesEffect desktop (scrolledBack, mountedDom))) = 0.95 \<and>
   displayFallProgress scrolledBack = 0.95 \<and>
   map_option transform (square (snd (calculateStagesEffect desktop (scrolledBack, mountedDom))))
     = Some (Rotate (- (8 * sin (0.95 * pi)))) \<and>
   map_option transform (square (snd (calculateStagesEffect desktop
       (calculateStagesEffect desktop (scrolledBack, mountedDom)))))
     = Some (Rotate (8 * sin (0.95 * pi))) \<and>
   snd (calculateStagesEffect desktop (calculateStagesEffect desktop (scrolledBack, mountedDom)))
     \<noteq> snd (calculateStagesEffect desktop (scrolledBack, mountedDom)) \<and>
   map_option transform (square (applyStyles grantedAtHalf desktop mountedDom)) = Some (Rotate 0) \<and>
   map_option transform (square (animateEffects integerText Fall 100
       (applyStyles grantedAtHalf desktop mountedDom))) = Some (Rotate (sin (1 / 2) * 1.5 * 0.1)) \<and>
   animateEffects integerText Fall 100 (applyStyles grantedAtHalf desktop mountedDom)
     \<noteq> applyStyles grantedAtHalf desktop mountedDom \<and>
   map_option transform (square (applyStyles leftFall desktop mountedDom)) = Some (Rotate (- 8)) \<and>
   map_option transform (square (animateEffects integerText Fall 0
       (applyStyles leftFall desktop mountedDom))) = Some (Rotate (- 80)) \<and>
   map_option transform (square (animateEffects integerText Fall 0
       (animateEffects integerText Fall 0 (applyStyles leftFall desktop mountedDom))))
     = Some (Rotate (- 800)) \<and>
   animateEffects integerText Fall 0
       (animateEffects integerText Fall 0 (applyStyles leftFall desktop mountedDom))
     \<noteq> animateEffects integerText Fall 0 (applyStyles leftFall desktop mountedDom)"
proof -
  have a: "animationStage scrolledBack = Fall \<and> interpolatedScroll scrolledBack = 0.5 \<and>
      displayFallProgress scrolledBack = 0.95 \<and>
      animationStage (scrolledBack\<lparr>previousScrollProgress := 0.5\<rparr>) = Fall \<and>
      interpolatedScroll (scrolledBack\<lparr>previousScrollProgress := 0.5\<rparr>) = 0.5 \<and>
      displayFallProgress (scrolledBack\<lparr>previousScrollProgress := 0.5\<rparr>) = 0.95"
    by (simp add: scrolledBack_eq progress_defs)
  have b: "sin (0.95 * pi) \<noteq> 0" "sin (1 / 2 :: real) \<noteq> 0"
    using sin_095_pos sin_half_pos by simp_all
  show ?thesis
    unfolding granted_frame scrolledBack_second leftFall_frames
    unfolding scrolledBack_first granted_styles leftFall_frame
    unfolding leftFall_dom
    using a b by simp
qed

text \<open>
  Claim C7, as amended. The style writes of \<^verbatim>\<open>calculateStages\<close> are fixed by the
  animation stage, the scroll value and the permission to expand (which give the
  progress values), by whether the stored previous scroll value is above the current
  one, and by the scale, the clock and the viewport: two states that agree in these
  get the same writes, and applying the writes to their own result changes nothing. A
  run of \<^verbatim>\<open>calculateStages\<close> also stores the current scroll value as the previous
  one, so the first of several runs in a row can differ from the second, as above; from
  the second run on, every further run leaves state and styles as they are. The
  callback \<^verbatim>\<open>animateEffects\<close> changes nothing when repeated in every stage other
  than Fall; in the Fall stage, on an element that carries a rotation, it writes the
  number it reads back from the text of that transform plus \<open>0.15 sin (now / 200)\<close>.
\<close>

theorem style_writes_idempotent:
  "(animationStage st = animationStage st' \<and> interpolatedScroll st = interpolatedScroll st' \<and>
    canExpand st = canExpand st' \<and>
    (previousScrollProgress st > interpolatedScroll st)
      = (previousScrollProgress st' > interpolatedScroll st') \<longrightarrow>
      applyStyles st env d = applyStyles st' env d) \<and>
   applyStyles st env (applyStyles st env d) = applyStyles st env d \<and>
   previousScrollProgress (calculateStages st) = interpolatedScroll st \<and>
   calculateStagesEffect env (calculateStagesEffect env (calculateStagesEffect env sd))
     = calculateStagesEffect env (calculateStagesEffect env sd) \<and>
   (stage \<noteq> Fall \<longrightarrow>
      animateEffects fmt stage now (animateEffects fmt stage now d)
        = animateEffects fmt stage now d) \<and>
   (square d = Some sq \<and> transform sq = Rotate r \<and>
    parseFloat (stripNonNumeric (cssText fmt (Rotate r))) = Some base \<longrightarrow>
      animateEffects fmt Fall now d =
        d\<lparr>square := Some (sq\<lparr>transform :=
            Rotate (base + sin (real_of_int now / 200) * 1.5 * 0.1)\<rparr>)\<rparr>)"
proof -
  have "previousScrollProgress (calculateStages st) = interpolatedScroll st"
    by (simp add: calculateStages_def)
  then show ?thesis
    using applyStyles_inputs [of st st' env d] applyStyles_idem [of st env d]
      calculateStagesEffect_repeats [of env sd] animateEffects_idem [of stage fmt now d]
      animateEffects_fall [of d sq r fmt base now]
    by blast
qed

text \<open>
  The states at 0.50 after timer starts at 0 and at 5 differ in the timer only and get
  the same writes; the element is the one \<^verbatim>\<open>calculateStages\<close> has written at 0.50
  with the permission granted.
\<close>

theorem style_writes_idempotent_witness:
  "animationStage (atHalf 0) = animationStage (atHalf 5) \<and>
   interpolatedScroll (atHalf 0) = interpolatedScroll (atHalf 5) \<and>
   canExpand (atHalf 0) = canExpand (atHalf 5) \<and>
   (previousScrollProgress (atHalf 0) > interpolatedScroll (atHalf 0))
     = (previousScrollProgress (atHalf 5) > interpolatedScroll (atHalf 5)) \<and>
   fallStartTime (atHalf 0) \<noteq> fallStartTime (atHalf 5) \<and>
   applyStyles (atHalf 0) desktop (applyStyles grantedAtHalf desktop mountedDom)
     = applyStyles (atHalf 5) desktop (applyStyles grantedAtHalf desktop mountedDom) \<and>
   Float \<noteq> Fall \<and>
   animateEffects integerText Float 100
       (animateEffects integerText Float 100 (applyStyles grantedAtHalf desktop mountedDom))
     = animateEffects integerText Float 100 (applyStyles grantedAtHalf desktop mountedDom) \<and>
   map_option transform (square (applyStyles grantedAtHalf desktop mountedDom))
     = Some (Rotate 0) \<and>
   parseFloat (stripNonNumeric (cssText integerText (Rotate 0))) = Some 0 \<and>
   map_option transform (square (animateEffects integerText Fall 100
       (applyStyles grantedAtHalf desktop mountedDom)))
     = Some (Rotate (0 + sin (real_of_int 100 / 200) * 1.5 * 0.1))"
proof -
  let ?d = "applyStyles grantedAtHalf desktop mountedDom"
  let ?sq = "\<lparr>cssWidth = Some 64, cssHeight = Some 64, cssLeft = Some 512,
        cssTop = Some 432, cssOpacity = Some 1, backgroundColor = Some (220, 38, 38),
        transform = Rotate 0, boxShadow = Some (Shadow 0 20 15 (0, 0, 0, 3 / 10))\<rparr>"
  have h1: "animationStage (atHalf 0) = animationStage (atHalf 5) \<and>
      interpolatedScroll (atHalf 0) = interpolatedScroll (atHalf 5) \<and>
      canExpand (atHalf 0) = canExpand (atHalf 5) \<and>
      (previousScrollProgress (atHalf 0) > interpolatedScroll (atHalf 0))
        = (previousScrollProgress (atHalf 5) > interpolatedScroll (atHalf 5))"
    by (simp add: atHalf_eq)
  have h2: "fallStartTime (atHalf 0) \<noteq> fallStartTime (atHalf 5)"
    by (simp add: atHalf_eq)
  have h3: "square ?d = Some ?sq \<and> transform ?sq = Rotate 0 \<and>
      parseFloat (stripNonNumeric (cssText integerText (Rotate 0))) = Some 0"
    by (simp add: granted_styles read_back_0)
  note T = style_writes_idempotent [where st = "atHalf 0" and st' = "atHalf 5" and env = desktop
      and d = ?d and sd = "(scrolledBack, mountedDom)" and stage = Float and fmt = integerText
      and now = 100 and sq = ?sq and r = 0 and base = 0]
  from T h1 have c1: "applyStyles (atHalf 0) desktop ?d = applyStyles (atHalf 5) desktop ?d"
    by blast
  from T have c2: "animateEffects integerText Float 100 (animateEffects integerText Float 100 ?d)
       = animateEffects integerText Float 100 ?d"
    by simp
  from T h3 have c3: "animateEffects integerText Fall 100 ?d =
       ?d\<lparr>square := Some (?sq\<lparr>transform := Rotate (0 + sin (real_of_int 100 / 200) * 1.5 * 0.1)\<rparr>)\<rparr>"
    by blast
  have m1: "map_option transform (square (animateEffects integerText Fall 100 ?d))
      = Some (Rotate (0 + sin (real_of_int 100 / 200) * 1.5 * 0.1))"
    unfolding c3 by simp
  have m2: "map_option transform (square ?d) = Some (Rotate 0)"
    using h3 by simp
  have n: "Float \<noteq> Fall"
    by simp
  show ?thesis
    using h1 h2 h3 c1 c2 m1 m2 n by blast
qed

section \<open>Running effects and events\<close>

text \<open>
  Statements that did not throw continue; a property that every event keeps is kept by
  every sequence of events. The facts on lists say what remains of the listeners once
  the cleanups have removed theirs.
\<close>

lemma andThen_Inr [simp]: "andThen (Inr v) f = f v"
  by (simp add: andThen_def)

lemma andThen_Inl [simp]: "andThen (Inl e) f = Inl e"
  by (simp add: andThen_def)

lemma deref_Some [simp]: "deref (Some v) = Inr v"
  by (simp add: deref_def)

lemmas browser_defs = requestAnimationFrame_def cancelAnimationFrame_def takeCallback_def
  addEventListener_def removeEventListener_def emit_def

lemma browser_proj:
  "listeners (removeEventListener t f b) = filter (\<lambda>l. l \<noteq> (t, f)) (listeners b)"
  "frameCallbacks (removeEventListener t f b) = frameCallbacks b"
  "listeners (cancelAnimationFrame h b) = listeners b"
  "frameCallbacks (cancelAnimationFrame h b) = filter (\<lambda>f. fst f \<noteq> h) (frameCallbacks b)"
  "listeners (emit x b) = listeners b"
  "frameCallbacks (emit x b) = frameCallbacks b"
  by (simp_all add: browser_defs)

lemma runEvents_invariant:
  assumes step: "\<And>e s. I s \<Longrightarrow> \<exists>s'. f e s = Inr s' \<and> I s'"
    and "I s"
  shows "\<exists>s'. runEvents f evs s = Inr s' \<and> I s'"
  using assms(2)
proof (induction evs arbitrary: s)
  case Nil
  then show ?case by simp
next
  case (Cons e evs)
  from step [OF Cons.prems, of e] obtain s1 where s1: "f e s = Inr s1" "I s1"
    by blast
  from Cons.IH [OF s1(2)] s1(1) show ?case by simp
qed

lemma allowed_filter:
  assumes "\<forall>l \<in> set ls. l \<in> A \<or> c \<and> l = d"
  shows "\<forall>l \<in> set (filter (\<lambda>l. l \<noteq> d) ls). l \<in> A \<or> False \<and> l = d"
  using assms by auto

lemma allowed_add:
  assumes "\<forall>l \<in> set ls. l \<in> A \<or> c \<and> l = d"
  shows "\<forall>l \<in> set (if d \<in> set ls then ls else ls @ [d]). l \<in> A \<or> True \<and> l = d"
  using assms by auto

lemma filters_empty:
  assumes "\<forall>l \<in> set ls. l \<in> {a, b, c} \<or> oc \<and> l = d"
  shows "filter (\<lambda>l. l \<noteq> d) (filter (\<lambda>l. l \<noteq> c) (filter (\<lambda>l. l \<noteq> b)
           (filter (\<lambda>l. l \<noteq> a) ls))) = []"
    and "\<not> oc \<Longrightarrow> filter (\<lambda>l. l \<noteq> c) (filter (\<lambda>l. l \<noteq> b) (filter (\<lambda>l. l \<noteq> a) ls)) = []"
  using assms by (auto simp: filter_empty_conv)

section \<open>ParticlesCanvas: frame callbacks and listeners\<close>

text \<open>
  Every run of the animation effect, every frame and every resize keeps \<open>pcInv\<close>;
  the cleanups at unmount then cancel the one callback and remove both listeners.
\<close>

lemma pcRerun_inv:
  assumes "pcInv s"
  shows "\<exists>s'. pcRerun s = Inr s' \<and> pcInv s' \<and> pcCanvas (fst s') = pcCanvas (fst s)"
  using assms
  by (cases s; cases "pcCanvas (fst s)")
     (auto simp: pcRerun_def pcAnimationCleanup_def pcAnimationEffect_def pcAnimate_def pcInv_def
      requestAnimationFrame_def cancelAnimationFrame_def emit_def Let_def split: if_splits)

lemma pcStep_inv:
  assumes "pcInv s"
  shows "\<exists>s'. pcStep e s = Inr s' \<and> pcInv s' \<and> pcCanvas (fst s') = pcCanvas (fst s)"
proof (cases s)
  case (Pair c b)
  show ?thesis
  proof (cases e)
    case (PcResize rect)
    have "pcInv (c\<lparr>dimensions := rect\<rparr>, b)"
      using assms by (simp add: pcInv_def Pair)
    from pcRerun_inv [OF this] assms show ?thesis
      by (auto simp: Pair PcResize)
  next
    case PcDepsChange
    from pcRerun_inv [OF assms] show ?thesis
      by (simp add: Pair PcDepsChange)
  next
    case (PcFrame h)
    show ?thesis
    proof (cases "map_of (frameCallbacks b) h = Some ParticlesAnimate")
      case False
      then have "pcStep e s = Inr s"
        by (auto simp: Pair PcFrame takeCallback_def split: option.splits loop.splits)
      with assms show ?thesis by simp
    next
      case True
      then have "(h, ParticlesAnimate) \<in> set (frameCallbacks b)"
        by (rule map_of_SomeD)
      with assms have "pcLoopCleanup c" and "\<forall>p \<in> set (frameCallbacks b). fst p = h"
        by (auto simp: pcInv_def Pair)
      then have "pcLoopCleanup c" and "filter (\<lambda>p. fst p \<noteq> h) (frameCallbacks b) = []"
        by (simp_all add: filter_empty_conv)
      with True assms show ?thesis
        by (simp add: Pair PcFrame takeCallback_def pcAnimate_def pcInv_def
            requestAnimationFrame_def cancelAnimationFrame_def emit_def)
    qed
  qed
qed

lemma runEvents_inv:
  assumes "pcInv s"
  shows "\<exists>s'. runEvents pcStep evs s = Inr s' \<and> pcInv s' \<and> pcCanvas (fst s') = pcCanvas (fst s)"
  using assms
proof (induction evs arbitrary: s)
  case Nil
  then show ?case by simp
next
  case (Cons e evs)
  from pcStep_inv [OF Cons.prems, of e] obtain s1
    where s1: "pcStep e s = Inr s1" "pcInv s1" "pcCanvas (fst s1) = pcCanvas (fst s)"
    by blast
  from Cons.IH [OF s1(2)] s1 show ?case by auto
qed

lemma pcMount_inv:
  "\<exists>s. pcMount canvas rect emptyBrowser = Inr s \<and> pcInv s \<and> pcCanvas (fst s) = canvas"
proof -
  let ?c = "\<lparr>pcCanvas = canvas, dimensions = (0, 0), pcAnimationRef = 0, pcLoopCleanup = False\<rparr>"
  let ?b = "addEventListener ''resize'' ''handleResize''
      (addEventListener ''mousemove'' ''updateMousePosition'' emptyBrowser)"
  have first: "pcAnimationEffect ?c ?b = Inr (?c, ?b)"
    by (simp add: pcAnimationEffect_def)
  have inv: "pcInv (?c\<lparr>dimensions := rect\<rparr>, ?b)" "pcInv (?c, ?b)"
    by (simp_all add: pcInv_def addEventListener_def emptyBrowser_def)
  show ?thesis
  proof (cases canvas)
    case None
    with first inv show ?thesis
      by (simp add: pcMount_def Let_def)
  next
    case (Some cv)
    from pcRerun_inv [OF inv(1)] first Some show ?thesis
      by (auto simp: pcMount_def Let_def)
  qed
qed

lemma pcUnmount_clean:
  assumes "pcInv s"
  shows "frameCallbacks (snd (pcUnmount s)) = [] \<and> listeners (snd (pcUnmount s)) = []"
proof -
  have "filter (\<lambda>l. l \<noteq> (''resize'', ''handleResize''))
          (filter (\<lambda>l. l \<noteq> (''mousemove'', ''updateMousePosition'')) (listeners (snd s))) = []"
    using assms by (auto simp: pcInv_def filter_empty_conv)
  moreover have "pcLoopCleanup (fst s) \<Longrightarrow>
      filter (\<lambda>p. fst p \<noteq> pcAnimationRef (fst s)) (frameCallbacks (snd s)) = []"
    using assms by (auto simp: pcInv_def filter_empty_conv)
  moreover have "\<not> pcLoopCleanup (fst s) \<Longrightarrow> frameCallbacks (snd s) = []"
    using assms by (cases "frameCallbacks (snd s)") (auto simp: pcInv_def)
  ultimately show ?thesis
    by (simp add: pcUnmount_def pcAnimationCleanup_def removeEventListener_def
        cancelAnimationFrame_def Let_def)
qed

lemma pcLife_clean:
  "\<exists>s. pcLife canvas rect evs = Inr s \<and> frameCallbacks (snd s) = [] \<and> listeners (snd s) = []"
proof -
  from pcMount_inv obtain s0 where s0: "pcMount canvas rect emptyBrowser = Inr s0" "pcInv s0"
    by blast
  from runEvents_inv [OF s0(2)] obtain s1 where s1: "runEvents pcStep evs s0 = Inr s1" "pcInv s1"
    by blast
  from pcUnmount_clean [OF s1(2)] s0 s1 show ?thesis
    by (simp add: pcLife_def pcMounted_def)
qed


section \<open>ParticlesCanvas without a 2D context\<close>

text \<open>
  With no 2D context the animation effect returns before \<^verbatim>\<open>animate\<close> is ever
  called, at mount and after every event.
\<close>

lemma pcRerun_quiet:
  assumes "pcQuiet s"
  shows "\<exists>s'. pcRerun s = Inr s' \<and> pcQuiet s'"
  using assms
  by (cases s)
     (auto simp: pcRerun_def pcAnimationCleanup_def pcAnimationEffect_def pcQuiet_def
      cancelAnimationFrame_def Let_def)

lemma pcStep_quiet:
  assumes "pcQuiet s"
  shows "\<exists>s'. pcStep e s = Inr s' \<and> pcQuiet s'"
proof (cases s)
  case (Pair c b)
  show ?thesis
  proof (cases e)
    case (PcResize rect)
    have "pcQuiet (c\<lparr>dimensions := rect\<rparr>, b)"
      using assms by (simp add: pcQuiet_def Pair)
    from pcRerun_quiet [OF this] assms show ?thesis
      by (auto simp: Pair PcResize pcQuiet_def)
  next
    case PcDepsChange
    from pcRerun_quiet [OF assms] show ?thesis
      by (simp add: Pair PcDepsChange)
  next
    case (PcFrame h)
    show ?thesis
      using assms
      by (auto simp: Pair PcFrame takeCallback_def pcQuiet_def cancelAnimationFrame_def)
  qed
qed

lemma pcRun_quiet:
  assumes "pcQuiet s"
  shows "\<exists>s'. runEvents pcStep evs s = Inr s' \<and> pcQuiet s'"
  using assms
proof (induction evs arbitrary: s)
  case Nil
  then show ?case by simp
next
  case (Cons e evs)
  from pcStep_quiet [OF Cons.prems, of e] obtain s1
    where s1: "pcStep e s = Inr s1" "pcQuiet s1"
    by blast
  from Cons.IH [OF s1(2)] s1 show ?case by auto
qed

lemma pcMount_quiet:
  assumes "\<not> context2d cv"
  shows "\<exists>s. pcMount (Some cv) rect emptyBrowser = Inr s \<and> pcQuiet s"
  using assms
  by (simp add: pcMount_def pcAnimationEffect_def pcRerun_def pcAnimationCleanup_def
      pcQuiet_def addEventListener_def emptyBrowser_def Let_def)

lemma pcMounted_quiet:
  assumes "\<not> context2d cv"
  shows "\<exists>s. pcMounted (Some cv) rect evs = Inr s \<and> sideEffects (snd s) = [] \<and>
    frameCallbacks (snd s) = []"
proof -
  from pcMount_quiet [OF assms] obtain s0
    where s0: "pcMount (Some cv) rect emptyBrowser = Inr s0" "pcQuiet s0"
    by blast
  from pcRun_quiet [OF s0(2)] obtain s1 where "runEvents pcStep evs s0 = Inr s1" "pcQuiet s1"
    by blast
  with s0 show ?thesis
    by (simp add: pcMounted_def pcQuiet_def)
qed

section \<open>DigitalPortal: frame callbacks and listeners\<close>

text \<open>
  Opening, closing, dragging, mouse moves and frames keep \<open>portalInv\<close>.
\<close>

lemma portalAnimate_inv:
  assumes "portalLoopCleanup p" and "frameCallbacks b = []"
    and "\<forall>l \<in> set (listeners b).
        l = (''mousemove'', ''updateMousePosition'') \<or>
        dragCleanup p \<and> l = (''mousemove'', ''handleMouseMove'')"
  shows "\<exists>s'. portalAnimate p b = Inr s' \<and> portalInv s' \<and>
     portalLoopCleanup (fst s') \<and> portalCanvas (fst s') = portalCanvas p"
  using assms
  by (cases "portalCanvas p") (auto simp: portalAnimate_def portalInv_def browser_defs)

lemma portalOpen_inv:
  assumes "portalInv (p, b)"
  shows "\<exists>s'. (let (p1, b1) = portalOpenCleanup (p\<lparr>isPortalOpen := v\<rparr>) b
           in portalOpenEffect p1 b1) = Inr s' \<and> portalInv s' \<and>
           portalCanvas (fst s') = portalCanvas p"
proof -
  obtain p1 b1 where c: "portalOpenCleanup (p\<lparr>isPortalOpen := v\<rparr>) b = (p1, b1)"
    by (cases "portalOpenCleanup (p\<lparr>isPortalOpen := v\<rparr>) b")
  have e: "frameCallbacks b1 = []"
    using assms c
    by (cases "frameCallbacks b")
       (auto simp: portalOpenCleanup_def portalInv_def browser_defs filter_empty_conv
        split: if_splits)
  have l: "\<forall>l \<in> set (listeners b1).
        l = (''mousemove'', ''updateMousePosition'') \<or>
        dragCleanup p1 \<and> l = (''mousemove'', ''handleMouseMove'')"
    using assms c
    by (auto simp: portalOpenCleanup_def portalInv_def browser_defs split: if_splits)
  have same: "portalCanvas p1 = portalCanvas p" "isPortalOpen p1 = v" "\<not> portalLoopCleanup p1"
    using c by (auto simp: portalOpenCleanup_def split: if_splits)
  have unfold: "(let (p1, b1) = portalOpenCleanup (p\<lparr>isPortalOpen := v\<rparr>) b
       in portalOpenEffect p1 b1) = portalOpenEffect p1 b1"
    by (simp only: c Let_def prod.case)
  have "\<exists>s'. portalOpenEffect p1 b1 = Inr s' \<and> portalInv s' \<and>
      portalCanvas (fst s') = portalCanvas p1"
  proof (cases "\<not> isPortalOpen p1 \<or> portalCanvas p1 = None")
    case True
    then show ?thesis using e l same
      by (auto simp: portalOpenEffect_def portalInv_def)
  next
    case False
    then obtain cv where cv: "portalCanvas p1 = Some cv" by auto
    show ?thesis
    proof (cases "context2d cv")
      case True
      then show ?thesis using False cv e l same
        by (auto simp: portalOpenEffect_def startSimulation_def portalAnimate_def
            portalInv_def browser_defs)
    next
      case nocontext: False
      then show ?thesis using False cv e l same
        by (auto simp: portalOpenEffect_def startSimulation_def portalInv_def)
    qed
  qed
  then show ?thesis
    unfolding unfold using same(1) by simp
qed

lemma portalDrag_inv:
  assumes "portalInv (p, b)"
  shows "\<exists>s'. (let (p1, b1) = dragEffectCleanup (p\<lparr>isDragging := v\<rparr>) b
           in Inr (dragEffect p1 b1)) = Inr s' \<and> portalInv s' \<and>
           portalCanvas (fst s') = portalCanvas p"
  using assms
  by (auto simp: dragEffectCleanup_def dragEffect_def portalInv_def browser_defs)

lemma portalStep_inv:
  assumes "portalInv s"
  shows "\<exists>s'. portalStep e s = Inr s' \<and> portalInv s' \<and> portalCanvas (fst s') = portalCanvas (fst s)"
proof (cases s)
  case (Pair p b)
  show ?thesis
  proof (cases e)
    case (PSetOpen v)
    from portalOpen_inv [of p b v] assms show ?thesis
      by (cases "v = isPortalOpen p") (auto simp: Pair PSetOpen)
  next
    case (PSetDragging v)
    from portalDrag_inv [of p b v] assms show ?thesis
      by (cases "v = isDragging p") (auto simp: Pair PSetDragging)
  next
    case PMouseMove
    from portalDrag_inv [of p b "isDragging p"] assms show ?thesis
      by (simp add: Pair PMouseMove)
  next
    case (PFrame h)
    show ?thesis
    proof (cases "map_of (frameCallbacks b) h = Some PortalAnimate")
      case False
      then have "portalStep e s = Inr s"
        by (auto simp: Pair PFrame takeCallback_def split: option.splits loop.splits)
      with assms show ?thesis by simp
    next
      case True
      then have "(h, PortalAnimate) \<in> set (frameCallbacks b)"
        by (rule map_of_SomeD)
      with assms have "portalLoopCleanup p" and "\<forall>f \<in> set (frameCallbacks b). fst f = h"
        by (auto simp: portalInv_def Pair)
      then have lc: "portalLoopCleanup p"
        and "frameCallbacks (cancelAnimationFrame h b) = []"
        by (simp_all add: filter_empty_conv cancelAnimationFrame_def)
      moreover have "\<forall>l \<in> set (listeners (cancelAnimationFrame h b)).
        l = (''mousemove'', ''updateMousePosition'') \<or>
        dragCleanup p \<and> l = (''mousemove'', ''handleMouseMove'')"
        using assms by (simp add: portalInv_def Pair cancelAnimationFrame_def)
      ultimately obtain s' where "portalAnimate p (cancelAnimationFrame h b) = Inr s'"
        "portalInv s'" "portalCanvas (fst s') = portalCanvas p"
        using portalAnimate_inv by blast
      with True show ?thesis
        by (simp add: Pair PFrame takeCallback_def)
    qed
  qed
qed

lemma portalMount_inv: "\<exists>s. portalMount canvas emptyBrowser = Inr s \<and> portalInv s"
  by (simp add: portalMount_def portalOpenEffect_def dragEffect_def portalInv_def
      emptyBrowser_def browser_defs Let_def)

lemma portalUnmount_clean:
  assumes "portalInv s"
  shows "frameCallbacks (snd (portalUnmount s)) = [] \<and> listeners (snd (portalUnmount s)) = []"
proof -
  have f: "portalLoopCleanup (fst s) \<Longrightarrow>
      filter (\<lambda>f. fst f \<noteq> portalAnimationRef (fst s)) (frameCallbacks (snd s)) = []"
    using assms by (auto simp: portalInv_def filter_empty_conv)
  have n: "\<not> portalLoopCleanup (fst s) \<Longrightarrow> frameCallbacks (snd s) = []"
    using assms by (cases "frameCallbacks (snd s)") (auto simp: portalInv_def)
  have l: "dragCleanup (fst s) \<Longrightarrow>
      filter (\<lambda>l. l \<noteq> (''mousemove'', ''handleMouseMove''))
        (filter (\<lambda>l. l \<noteq> (''mousemove'', ''updateMousePosition'')) (listeners (snd s))) = []"
    using assms by (auto simp: portalInv_def filter_empty_conv)
  have m: "\<not> dragCleanup (fst s) \<Longrightarrow>
      filter (\<lambda>l. l \<noteq> (''mousemove'', ''updateMousePosition'')) (listeners (snd s)) = []"
    using assms by (auto simp: portalInv_def filter_empty_conv)
  show ?thesis
    using f n l m
    by (simp add: portalUnmount_def portalOpenCleanup_def dragEffectCleanup_def
        removeEventListener_def cancelAnimationFrame_def Let_def)
qed

lemma portalLife_clean:
  "\<exists>s. portalLife canvas evs = Inr s \<and> frameCallbacks (snd s) = [] \<and> listeners (snd s) = []"
proof -
  from portalMount_inv obtain s0 where s0: "portalMount canvas emptyBrowser = Inr s0" "portalInv s0"
    by blast
  have "\<exists>s'. runEvents portalStep evs s0 = Inr s' \<and> portalInv s'"
    using portalStep_inv s0(2) by (intro runEvents_invariant) blast+
  then obtain s1 where s1: "runEvents portalStep evs s0 = Inr s1" "portalInv s1"
    by blast
  from portalUnmount_clean [OF s1(2)] s0 s1 show ?thesis
    by (simp add: portalLife_def portalMounted_def)
qed

section \<open>DigitalPortal without a 2D context\<close>

text \<open>
  \<^verbatim>\<open>startSimulation\<close> returns before it sizes the canvas or calls \<^verbatim>\<open>animate\<close>.
\<close>

lemma portalStep_quiet:
  assumes "portalQuiet s"
  shows "\<exists>s'. portalStep e s = Inr s' \<and> portalQuiet s'"
proof (cases s)
  case (Pair p b)
  show ?thesis
  proof (cases e)
    case (PSetOpen v)
    show ?thesis using assms
      by (auto simp: Pair PSetOpen portalQuiet_def portalOpenCleanup_def portalOpenEffect_def
          startSimulation_def browser_defs)
  next
    case (PSetDragging v)
    show ?thesis using assms
      by (auto simp: Pair PSetDragging portalQuiet_def dragEffectCleanup_def dragEffect_def
          browser_defs)
  next
    case PMouseMove
    show ?thesis using assms
      by (auto simp: Pair PMouseMove portalQuiet_def dragEffectCleanup_def dragEffect_def
          browser_defs)
  next
    case (PFrame h)
    show ?thesis using assms
      by (auto simp: Pair PFrame portalQuiet_def browser_defs)
  qed
qed

lemma portalMount_quiet:
  assumes "\<not> context2d cv"
  shows "\<exists>s. portalMount (Some cv) emptyBrowser = Inr s \<and> portalQuiet s"
  using assms
  by (simp add: portalMount_def portalOpenEffect_def dragEffect_def portalQuiet_def
      emptyBrowser_def browser_defs Let_def)

lemma portalUnmount_quiet:
  assumes "portalQuiet s"
  shows "sideEffects (snd (portalUnmount s)) = []"
  using assms
  by (simp add: portalUnmount_def portalOpenCleanup_def dragEffectCleanup_def portalQuiet_def
      browser_defs Let_def)

lemma portal_quiet:
  assumes "\<not> context2d cv"
  shows "(\<exists>s. portalMounted (Some cv) evs = Inr s \<and> sideEffects (snd s) = []) \<and>
         (\<exists>s. portalLife (Some cv) evs = Inr s \<and> sideEffects (snd s) = [])"
proof -
  from portalMount_quiet [OF assms] obtain s0
    where s0: "portalMount (Some cv) emptyBrowser = Inr s0" "portalQuiet s0"
    by blast
  have "\<exists>s'. runEvents portalStep evs s0 = Inr s' \<and> portalQuiet s'"
    using portalStep_quiet s0(2) by (intro runEvents_invariant) blast+
  then obtain s1 where s1: "runEvents portalStep evs s0 = Inr s1" "portalQuiet s1"
    by blast
  from portalUnmount_quiet [OF s1(2)] s0 s1 show ?thesis
    by (simp add: portalLife_def portalMounted_def portalQuiet_def)
qed

section \<open>The audio grid: frame callbacks and listeners\<close>

text \<open>
  The audio loop and the grid loop each keep their latest handle where their cleanup
  reads it; taking a callback off the list to run it leaves only callbacks of the other
  loop. The effects of the wrapper add and remove the orientation listener in pairs
  and, with its canvas reference null, never request a frame.
\<close>

lemma gridFrames_cong:
  assumes "audioFrameId g' = audioFrameId g" and "gridLoopCleanup g' = gridLoopCleanup g"
    and "gridAnimationRef g' = gridAnimationRef g"
  shows "gridFrames g' fs = gridFrames g fs"
  using assms by (simp add: gridFrames_def)

lemma gridListeners_cong:
  assumes "orientationCleanup g' = orientationCleanup g"
  shows "gridListeners g' ls = gridListeners g ls"
  using assms by (simp add: gridListeners_def)

lemma gridFrames_filter:
  assumes "gridFrames g fs"
  shows "gridFrames g (filter P fs)"
  using assms by (simp add: gridFrames_def)

lemma gridFrames_no_grid:
  assumes "gridFrames g fs" and "\<not> gridLoopCleanup g"
  shows "\<forall>f \<in> set fs. snd f \<noteq> GridAnimate"
  using assms by (auto simp: gridFrames_def)

lemma gridFrames_cancel_ref:
  assumes "gridFrames g fs"
  shows "gridFrames (g\<lparr>gridLoopCleanup := False\<rparr>) (filter (\<lambda>f. fst f \<noteq> gridAnimationRef g) fs)"
  using assms by (auto simp: gridFrames_def)

lemma gridFrames_request_grid:
  assumes "gridFrames g fs" and "\<forall>f \<in> set fs. snd f \<noteq> GridAnimate"
  shows "gridFrames (g\<lparr>gridAnimationRef := h, gridLoopCleanup := True\<rparr>) (fs @ [(h, GridAnimate)])"
  using assms by (auto simp: gridFrames_def)

lemma gridFrames_set_cleanup:
  assumes "gridFrames g fs" and "\<forall>f \<in> set fs. snd f \<noteq> GridAnimate"
  shows "gridFrames (g\<lparr>gridLoopCleanup := c\<rparr>) fs"
  using assms by (auto simp: gridFrames_def)

lemma gridFrames_request_audio:
  assumes "gridFrames g fs" and "\<forall>f \<in> set fs. snd f \<noteq> SimulateAudio"
  shows "gridFrames (g\<lparr>audioDataLevel := v, audioFrameId := Some h\<rparr>) (fs @ [(h, SimulateAudio)])"
  using assms by (auto simp: gridFrames_def)

lemma gridFrames_taken_audio:
  assumes "gridFrames g fs" and "(h, SimulateAudio) \<in> set fs"
  shows "\<forall>f \<in> set (filter (\<lambda>f. fst f \<noteq> h) fs). snd f \<noteq> SimulateAudio"
proof -
  from assms have h: "audioFrameId g = Some h"
    unfolding gridFrames_def by fastforce
  have "fst f = h" if "f \<in> set fs" "snd f = SimulateAudio" for f
    using assms(1) that h unfolding gridFrames_def by fastforce
  then show ?thesis by auto
qed

lemma gridFrames_taken_grid:
  assumes "gridFrames g fs" and "(h, GridAnimate) \<in> set fs"
  shows "(\<forall>f \<in> set (filter (\<lambda>f. fst f \<noteq> h) fs). snd f \<noteq> GridAnimate) \<and> gridLoopCleanup g"
proof -
  from assms have h: "gridLoopCleanup g" "gridAnimationRef g = h"
    unfolding gridFrames_def by fastforce+
  have "fst f = h" if "f \<in> set fs" "snd f = GridAnimate" for f
    using assms(1) that h unfolding gridFrames_def by fastforce
  with h(1) show ?thesis by auto
qed

lemma gridAnimate_frames:
  assumes "gridAnimate g b = Inr (g', b')"
    and "gridFrames g (frameCallbacks b)"
    and "\<forall>f \<in> set (frameCallbacks b). snd f \<noteq> GridAnimate"
  shows "gridFrames (g'\<lparr>gridLoopCleanup := True\<rparr>) (frameCallbacks b')"
proof (cases "glRef g = None \<or> gridCanvas g = None")
  case True
  with assms(1) have "g' = g" "b' = b"
    by (auto simp: gridAnimate_def)
  with assms(2,3) show ?thesis
    by (simp add: gridFrames_set_cleanup)
next
  case False
  then obtain gl canvas where "glRef g = Some gl" "gridCanvas g = Some canvas"
    by auto
  with assms(1) have g': "g' = g\<lparr>gridAnimationRef := nextHandle b\<rparr>"
    and b': "frameCallbacks b' = frameCallbacks b @ [(nextHandle b, GridAnimate)]"
    by (auto simp: gridAnimate_def browser_defs)
  from gridFrames_request_grid [OF assms(2,3), of "nextHandle b"] show ?thesis
    by (simp add: g' b')
qed

lemma gridAnimate_rest:
  assumes "gridAnimate g b = Inr (g', b')"
  shows "listeners b' = listeners b \<and> orientationCleanup g' = orientationCleanup g \<and>
    vrCanvas g' = vrCanvas g \<and> headTrackingCleanup g' = headTrackingCleanup g \<and>
    audioFrameId g' = audioFrameId g \<and> gridLoopCleanup g' = gridLoopCleanup g \<and>
    glRef g' = glRef g \<and> programRef g' = programRef g \<and> gridCanvas g' = gridCanvas g \<and>
    glCleanup g' = glCleanup g"
proof (cases "glRef g = None \<or> gridCanvas g = None")
  case True
  with assms show ?thesis
    by (auto simp: gridAnimate_def)
next
  case False
  then obtain gl canvas where "glRef g = Some gl" "gridCanvas g = Some canvas"
    by auto
  with assms show ?thesis
    by (auto simp: gridAnimate_def browser_defs)
qed

lemma gridAnimate_total: "\<exists>g' b'. gridAnimate g b = Inr (g', b')"
  by (cases "glRef g"; cases "gridCanvas g") (simp_all add: gridAnimate_def browser_defs)

lemma gridRerun_inv:
  assumes "gridInv s"
  shows "\<exists>s'. gridRerun s = Inr s' \<and> gridInv s'"
proof -
  obtain g b where s: "s = (g, b)" by (cases s)
  define g1 where "g1 = fst (gridAnimationCleanup g b)"
  define b1 where "b1 = snd (gridAnimationCleanup g b)"
  have c: "gridAnimationCleanup g b = (g1, b1)"
    by (simp add: g1_def b1_def)
  from assms have inv: "vrCanvas g = None" "headTrackingCleanup g = None"
    "gridFrames g (frameCallbacks b)" "gridListeners g (listeners b)"
    by (simp_all add: gridInv_def s)
  have g1: "g1 = g\<lparr>gridLoopCleanup := False\<rparr>"
    using inv(3) by (cases "gridLoopCleanup g") (simp_all add: g1_def gridAnimationCleanup_def)
  have fr1: "gridFrames g1 (frameCallbacks b1)"
  proof (cases "gridLoopCleanup g")
    case True
    then show ?thesis
      using gridFrames_cancel_ref [OF inv(3)]
      by (simp add: g1 b1_def gridAnimationCleanup_def cancelAnimationFrame_def)
  next
    case False
    from gridFrames_set_cleanup [OF inv(3) gridFrames_no_grid [OF inv(3) False], of False]
    show ?thesis using False
      by (simp add: g1 b1_def gridAnimationCleanup_def)
  qed
  have none: "\<forall>f \<in> set (frameCallbacks b1). snd f \<noteq> GridAnimate"
    by (rule gridFrames_no_grid [OF fr1]) (simp add: g1)
  have ls1: "listeners b1 = listeners b"
    by (simp add: b1_def gridAnimationCleanup_def cancelAnimationFrame_def)
  have "\<exists>s'. gridAnimationEffect g1 b1 = Inr s' \<and> gridInv s'"
  proof (cases "glRef g1 = None \<or> \<not> programRef g1")
    case True
    then have "gridAnimationEffect g1 b1 = Inr (g1\<lparr>gridLoopCleanup := False\<rparr>, b1)"
      by (auto simp: gridAnimationEffect_def)
    moreover have "gridInv (g1\<lparr>gridLoopCleanup := False\<rparr>, b1)"
      using inv fr1 by (simp add: gridInv_def g1 ls1 gridListeners_def)
    ultimately show ?thesis by simp
  next
    case False
    obtain g' b' where a: "gridAnimate g1 b1 = Inr (g', b')"
      using gridAnimate_total by blast
    note r = gridAnimate_rest [OF a]
    have "gridInv (g'\<lparr>gridLoopCleanup := True\<rparr>, b')"
      using gridAnimate_frames [OF a fr1 none] inv r
      by (simp add: gridInv_def g1 ls1 gridListeners_def)
    with False a show ?thesis
      by (auto simp: gridAnimationEffect_def)
  qed
  then show ?thesis
    by (simp add: gridRerun_def s c)
qed

lemma gridInv_fields:
  assumes "gridInv (g, b)"
  shows "vrCanvas g = None" and "headTrackingCleanup g = None"
    and "gridFrames g (frameCallbacks b)" and "gridListeners g (listeners b)"
  using assms by (simp_all add: gridInv_def)

lemma gridInvI:
  assumes "vrCanvas g = None" and "headTrackingCleanup g = None"
    and "gridFrames g (frameCallbacks b)" and "gridListeners g (listeners b)"
  shows "gridInv (g, b)"
  using assms by (simp add: gridInv_def)

lemma handleResize_inv:
  assumes "gridInv (g, b)"
  shows "\<exists>s'. handleResize g b = Inr s' \<and> gridInv s'"
proof (cases "gridCanvas g = None \<or> glRef g = None")
  case True
  with assms show ?thesis by (auto simp: handleResize_def)
next
  case False
  then obtain gl canvas where "glRef g = Some gl" "gridCanvas g = Some canvas"
    by auto
  then have "handleResize g b = Inr (g, emit WebGL b)"
    by (simp add: handleResize_def)
  moreover have "gridInv (g, emit WebGL b)"
    using assms by (simp add: gridInv_def emit_def)
  ultimately show ?thesis by simp
qed

lemma frame_audio_inv:
  assumes "gridInv (g, b)" and "map_of (frameCallbacks b) h = Some SimulateAudio"
  shows "\<exists>s'. gridRerun (simulateAudioLoop now rnd g (cancelAnimationFrame h b)) = Inr s' \<and>
    gridInv s'"
proof -
  note inv = gridInv_fields [OF assms(1)]
  from assms(2) have mem: "(h, SimulateAudio) \<in> set (frameCallbacks b)"
    by (rule map_of_SomeD)
  let ?fs = "filter (\<lambda>f. fst f \<noteq> h) (frameCallbacks b)"
  have "gridFrames g ?fs"
    by (rule gridFrames_filter [OF inv(3)])
  from gridFrames_request_audio [OF this gridFrames_taken_audio [OF inv(3) mem]]
  have "gridFrames (g\<lparr>audioDataLevel := simulateAudio now rnd,
      audioFrameId := Some (nextHandle b)\<rparr>) (?fs @ [(nextHandle b, SimulateAudio)])" .
  then have "gridInv (simulateAudioLoop now rnd g (cancelAnimationFrame h b))"
    using inv
    by (simp add: simulateAudioLoop_def browser_defs gridInv_def gridListeners_def)
  then show ?thesis by (rule gridRerun_inv)
qed

lemma frame_grid_inv:
  assumes "gridInv (g, b)" and "map_of (frameCallbacks b) h = Some GridAnimate"
  shows "\<exists>s'. gridAnimate g (cancelAnimationFrame h b) = Inr s' \<and> gridInv s'"
proof -
  note inv = gridInv_fields [OF assms(1)]
  from assms(2) have mem: "(h, GridAnimate) \<in> set (frameCallbacks b)"
    by (rule map_of_SomeD)
  let ?b = "cancelAnimationFrame h b"
  have fs: "frameCallbacks ?b = filter (\<lambda>f. fst f \<noteq> h) (frameCallbacks b)"
    and ls: "listeners ?b = listeners b"
    by (simp_all add: cancelAnimationFrame_def)
  have fr: "gridFrames g (frameCallbacks ?b)"
    unfolding fs by (rule gridFrames_filter [OF inv(3)])
  from gridFrames_taken_grid [OF inv(3) mem]
  have none: "\<forall>f \<in> set (frameCallbacks ?b). snd f \<noteq> GridAnimate" and on: "gridLoopCleanup g"
    unfolding fs by simp_all
  obtain g' b' where a: "gridAnimate g ?b = Inr (g', b')"
    using gridAnimate_total by blast
  note r = gridAnimate_rest [OF a]
  from r on have "g'\<lparr>gridLoopCleanup := True\<rparr> = g'" by simp
  with gridAnimate_frames [OF a fr none] have "gridFrames g' (frameCallbacks b')" by simp
  with inv r ls have "gridInv (g', b')"
    by (simp add: gridInv_def gridListeners_def)
  with a show ?thesis by simp
qed

lemma frame_head_impossible:
  assumes "gridInv (g, b)"
  shows "map_of (frameCallbacks b) h \<noteq> Some HeadTracking"
    and "map_of (frameCallbacks b) h \<noteq> Some ParticlesAnimate"
    and "map_of (frameCallbacks b) h \<noteq> Some PortalAnimate"
proof -
  have "l = SimulateAudio \<or> l = GridAnimate" if "map_of (frameCallbacks b) h = Some l" for l
  proof -
    from that have "(h, l) \<in> set (frameCallbacks b)" by (rule map_of_SomeD)
    with gridInv_fields(3) [OF assms] show ?thesis
      unfolding gridFrames_def by fastforce
  qed
  then show "map_of (frameCallbacks b) h \<noteq> Some HeadTracking"
    and "map_of (frameCallbacks b) h \<noteq> Some ParticlesAnimate"
    and "map_of (frameCallbacks b) h \<noteq> Some PortalAnimate"
    by auto
qed

lemma orientationEffectCleanup_inv:
  assumes "gridInv (g, b)"
  shows "gridInv (orientationEffectCleanup g b)"
proof (cases "orientationCleanup g")
  case True
  have "gridFrames (g\<lparr>orientationCleanup := False\<rparr>) (frameCallbacks b)"
    using gridInv_fields(3) [OF assms] by (simp add: gridFrames_def)
  moreover have "gridListeners (g\<lparr>orientationCleanup := False\<rparr>)
      (filter (\<lambda>l. l \<noteq> (''deviceorientation'', ''handleDeviceOrientation'')) (listeners b))"
    using allowed_filter [OF gridInv_fields(4) [OF assms, unfolded gridListeners_def]]
    unfolding gridListeners_def by simp
  ultimately show ?thesis
    using True gridInv_fields(1,2) [OF assms]
    by (simp add: orientationEffectCleanup_def removeEventListener_def gridInv_def)
next
  case False
  with assms show ?thesis by (simp add: orientationEffectCleanup_def)
qed

lemma orientationEffect_inv:
  assumes "gridInv (g, b)" and "\<not> orientationCleanup g"
  shows "gridInv (orientationEffect g b)"
proof (cases "isVRMode g")
  case True
  have "gridFrames (g\<lparr>orientationCleanup := True\<rparr>) (frameCallbacks b)"
    using gridInv_fields(3) [OF assms(1)] by (simp add: gridFrames_def)
  moreover have "gridListeners (g\<lparr>orientationCleanup := True\<rparr>)
      (listeners (addEventListener ''deviceorientation'' ''handleDeviceOrientation'' b))"
    using allowed_add [OF gridInv_fields(4) [OF assms(1), unfolded gridListeners_def]]
    unfolding gridListeners_def addEventListener_def
    by (simp split: if_splits)
  ultimately show ?thesis
    using True gridInv_fields(1,2) [OF assms(1)]
    by (simp add: orientationEffect_def addEventListener_def gridInv_def)
next
  case False
  have "gridFrames (g\<lparr>orientationCleanup := False\<rparr>) (frameCallbacks b)"
    using gridInv_fields(3) [OF assms(1)] by (simp add: gridFrames_def)
  moreover have "gridListeners (g\<lparr>orientationCleanup := False\<rparr>) (listeners b)"
    using gridInv_fields(4) [OF assms(1)] assms(2) by (simp add: gridListeners_def)
  ultimately show ?thesis
    using False gridInv_fields(1,2) [OF assms(1)]
    by (simp add: orientationEffect_def gridInv_def)
qed

lemma orientationEffectCleanup_off: "\<not> orientationCleanup (fst (orientationEffectCleanup g b))"
  by (simp add: orientationEffectCleanup_def)

lemma deviceOrientation_inv:
  assumes "gridInv (g, b)"
  shows "\<exists>s'. (let (g1, b1) = vrEffectCleanup g b in vrEffect g1 b1) = Inr s' \<and> gridInv s'"
proof -
  note inv = gridInv_fields [OF assms]
  have c: "vrEffectCleanup g b = (g, b)"
    using inv(2) by (simp add: vrEffectCleanup_def)
  have "vrEffect g b = Inr (g\<lparr>headTrackingCleanup := None\<rparr>, b)"
    using inv(1) by (simp add: vrEffect_def)
  moreover have "gridInv (g\<lparr>headTrackingCleanup := None\<rparr>, b)"
    using inv by (simp add: gridInv_def gridFrames_def gridListeners_def)
  ultimately show ?thesis using c by simp
qed

lemma vrToggle_inv:
  assumes "gridInv (g, b)"
  shows "\<exists>s'. (let (g1, b1) = orientationEffectCleanup (g\<lparr>isVRMode := v\<rparr>) b;
                   (g2, b2) = orientationEffect g1 b1;
                   (g3, b3) = vrEffectCleanup g2 b2
               in vrEffect g3 b3) = Inr s' \<and> gridInv s'"
proof -
  note inv = gridInv_fields [OF assms]
  have "gridInv (g\<lparr>isVRMode := v\<rparr>, b)"
    using inv by (simp add: gridInv_def gridFrames_def gridListeners_def)
  from orientationEffectCleanup_inv [OF this]
  obtain g1 b1 where c1: "orientationEffectCleanup (g\<lparr>isVRMode := v\<rparr>) b = (g1, b1)"
    and i1: "gridInv (g1, b1)"
    by (cases "orientationEffectCleanup (g\<lparr>isVRMode := v\<rparr>) b") simp
  have "\<not> orientationCleanup g1"
    using orientationEffectCleanup_off [of "g\<lparr>isVRMode := v\<rparr>" b] by (simp add: c1)
  from orientationEffect_inv [OF i1 this]
  obtain g2 b2 where c2: "orientationEffect g1 b1 = (g2, b2)" and i2: "gridInv (g2, b2)"
    by (cases "orientationEffect g1 b1") simp
  from deviceOrientation_inv [OF i2] show ?thesis
    by (simp only: c1 c2 Let_def prod.case)
qed

lemma gridStep_inv:
  assumes "gridInv s"
  shows "\<exists>s'. gridStep e s = Inr s' \<and> gridInv s'"
proof -
  obtain g b where s: "s = (g, b)" by (cases s)
  note inv = assms [unfolded s]
  show ?thesis
  proof (cases e)
    case (GFrame h now rnd)
    show ?thesis
    proof (cases "map_of (frameCallbacks b) h")
      case None
      with assms show ?thesis
        by (simp add: s GFrame takeCallback_def)
    next
      case (Some l)
      show ?thesis
      proof (cases l)
        case SimulateAudio
        with frame_audio_inv [OF inv, of h now rnd] Some show ?thesis
          by (simp add: s GFrame takeCallback_def)
      next
        case GridAnimate
        with frame_grid_inv [OF inv, of h] Some show ?thesis
          by (simp add: s GFrame takeCallback_def)
      next
        case HeadTracking
        with frame_head_impossible(1) [OF inv, of h] Some show ?thesis by simp
      next
        case ParticlesAnimate
        with frame_head_impossible(2) [OF inv, of h] Some show ?thesis by simp
      next
        case PortalAnimate
        with frame_head_impossible(3) [OF inv, of h] Some show ?thesis by simp
      qed
    qed
  next
    case GResize
    with handleResize_inv [OF inv] show ?thesis by (simp add: s)
  next
    case GDepsChange
    with gridRerun_inv [OF inv] show ?thesis by (simp add: s)
  next
    case (GVRToggle v)
    show ?thesis
    proof (cases "v = isVRMode g")
      case True
      with assms show ?thesis by (simp add: s GVRToggle)
    next
      case False
      with vrToggle_inv [OF inv, of v] show ?thesis
        by (simp only: s GVRToggle gridStep.simps if_False)
    qed
  next
    case GDeviceOrientation
    show ?thesis
    proof (cases "(''deviceorientation'', ''handleDeviceOrientation'') \<in> set (listeners b)")
      case True
      with deviceOrientation_inv [OF inv] show ?thesis
        by (simp only: s GDeviceOrientation gridStep.simps if_True)
    next
      case False
      with assms show ?thesis
        by (simp only: s GDeviceOrientation gridStep.simps if_False) simp
    qed
  qed
qed

lemma initWebGL_effect:
  "\<exists>g' b'. initWebGL g b = Inr (g', b') \<and>
     frameCallbacks b' = frameCallbacks b \<and> listeners b' = listeners b \<and>
     audioFrameId g' = audioFrameId g \<and> gridLoopCleanup g' = gridLoopCleanup g \<and>
     gridAnimationRef g' = gridAnimationRef g \<and> orientationCleanup g' = orientationCleanup g \<and>
     vrCanvas g' = vrCanvas g \<and> headTrackingCleanup g' = headTrackingCleanup g \<and>
     isVRMode g' = isVRMode g"
proof (cases "gridCanvas g")
  case None
  then show ?thesis by (simp add: initWebGL_def)
next
  case (Some canvas)
  show ?thesis
  proof (cases "case webgl canvas of Some gl \<Rightarrow> Some gl | None \<Rightarrow> experimentalWebgl canvas")
    case None
    with Some show ?thesis by (simp add: initWebGL_def emit_def)
  next
    case gl: (Some gl)
    show ?thesis
      by (simp add: initWebGL_def Some gl handleResize_def emit_def Let_def)
  qed
qed

lemma gridAnimationEffect_inv:
  assumes "gridInv (g, b)" and "\<not> gridLoopCleanup g"
  shows "\<exists>g' b'. gridAnimationEffect g b = Inr (g', b') \<and> gridInv (g', b') \<and>
    orientationCleanup g' = orientationCleanup g \<and> isVRMode g' = isVRMode g"
proof -
  note inv = gridInv_fields [OF assms(1)]
  have none: "\<forall>f \<in> set (frameCallbacks b). snd f \<noteq> GridAnimate"
    by (rule gridFrames_no_grid [OF inv(3) assms(2)])
  show ?thesis
  proof (cases "glRef g = None \<or> \<not> programRef g")
    case True
    then have "gridAnimationEffect g b = Inr (g\<lparr>gridLoopCleanup := False\<rparr>, b)"
      by (auto simp: gridAnimationEffect_def)
    moreover have "gridInv (g\<lparr>gridLoopCleanup := False\<rparr>, b)"
      using inv gridFrames_set_cleanup [OF inv(3) none, of False]
      by (simp add: gridInv_def gridListeners_def)
    ultimately show ?thesis by simp
  next
    case False
    obtain g' b' where a: "gridAnimate g b = Inr (g', b')"
      using gridAnimate_total by blast
    note r = gridAnimate_rest [OF a]
    have iv: "isVRMode g' = isVRMode g"
      using a by (cases "glRef g"; cases "gridCanvas g")
        (auto simp: gridAnimate_def browser_defs)
    have "gridInv (g'\<lparr>gridLoopCleanup := True\<rparr>, b')"
      using gridAnimate_frames [OF a inv(3) none] inv r
      by (simp add: gridInv_def gridListeners_def)
    with False a r iv show ?thesis
      by (auto simp: gridAnimationEffect_def)
  qed
qed

lemma gridMount_inv: "\<exists>s. gridMount canvas now rnd emptyBrowser = Inr s \<and> gridInv s"
proof -
  let ?g = "\<lparr>gridCanvas = canvas, glRef = None, programRef = False, audioFrameId = None,
                audioDataLevel = 0, gridAnimationRef = 0, gridLoopCleanup = False,
                glCleanup = False, vrCanvas = None, isVRMode = False,
                orientationCleanup = False, headTrackingCleanup = None\<rparr>"
  let ?b1 = "addEventListener ''mousemove'' ''updateMousePosition'' emptyBrowser"
  define g1 where "g1 = fst (simulateAudioLoop now rnd ?g ?b1)"
  define b2 where "b2 = snd (simulateAudioLoop now rnd ?g ?b1)"
  have a: "simulateAudioLoop now rnd ?g ?b1 = (g1, b2)"
    by (simp add: g1_def b2_def)
  have g1: "audioFrameId g1 = Some 1" "\<not> gridLoopCleanup g1" "\<not> orientationCleanup g1"
    "vrCanvas g1 = None" "headTrackingCleanup g1 = None" "\<not> isVRMode g1"
    by (simp_all add: g1_def simulateAudioLoop_def browser_defs emptyBrowser_def)
  have b2: "frameCallbacks b2 = [(1, SimulateAudio)]"
    "listeners b2 = [(''mousemove'', ''updateMousePosition'')]"
    by (simp_all add: b2_def simulateAudioLoop_def browser_defs emptyBrowser_def)
  from initWebGL_effect [of g1 b2] obtain g2 b3 where i: "initWebGL g1 b2 = Inr (g2, b3)"
    and b3: "frameCallbacks b3 = [(1, SimulateAudio)]"
      "listeners b3 = [(''mousemove'', ''updateMousePosition'')]"
    and g2: "audioFrameId g2 = Some 1" "\<not> gridLoopCleanup g2" "\<not> orientationCleanup g2"
      "vrCanvas g2 = None" "headTrackingCleanup g2 = None" "\<not> isVRMode g2"
    using g1 b2 by auto
  let ?b3' = "addEventListener ''resize'' ''handleResize'' b3"
  have "gridInv (g2, ?b3')"
    using b3 g2 by (simp add: gridInv_def gridFrames_def gridListeners_def addEventListener_def)
  from gridAnimationEffect_inv [OF this g2(2)] obtain g3 b4
    where e: "gridAnimationEffect g2 ?b3' = Inr (g3, b4)" and i3: "gridInv (g3, b4)"
      and g3: "\<not> orientationCleanup g3" "\<not> isVRMode g3"
    using g2 by auto
  let ?b4' = "addEventListener ''vr-mode-toggle'' ''handleVRModeToggle'' b4"
  have "gridListeners g3 (listeners ?b4')"
    using gridInv_fields(4) [OF i3] unfolding gridListeners_def addEventListener_def
    by (simp split: if_splits)
  then have i4: "gridInv (g3, ?b4')"
    using gridInv_fields(1-3) [OF i3] by (simp add: gridInv_def addEventListener_def)
  have o: "orientationEffect g3 ?b4' = (g3\<lparr>orientationCleanup := False\<rparr>, ?b4')"
    using g3 by (simp add: orientationEffect_def)
  have i5: "gridInv (g3\<lparr>orientationCleanup := False\<rparr>, ?b4')"
    using orientationEffect_inv [OF i4 g3(1)] by (simp add: o)
  have v: "vrEffect (g3\<lparr>orientationCleanup := False\<rparr>) ?b4' =
      Inr (g3\<lparr>orientationCleanup := False, headTrackingCleanup := None\<rparr>, ?b4')"
    using gridInv_fields(1) [OF i5] by (simp add: vrEffect_def)
  have i6: "gridInv (g3\<lparr>orientationCleanup := False, headTrackingCleanup := None\<rparr>, ?b4')"
    using i5 by (simp add: gridInv_def gridFrames_def gridListeners_def)
  from gridRerun_inv [OF i6] show ?thesis
    by (simp add: gridMount_def Let_def a i e o v)
qed

lemma gridAnimationCleanup_proj:
  "listeners (snd (gridAnimationCleanup g b)) = listeners b"
  "frameCallbacks (snd (gridAnimationCleanup g b)) =
     (if gridLoopCleanup g then filter (\<lambda>f. fst f \<noteq> gridAnimationRef g) (frameCallbacks b)
      else frameCallbacks b)"
  "orientationCleanup (fst (gridAnimationCleanup g b)) = orientationCleanup g"
  "headTrackingCleanup (fst (gridAnimationCleanup g b)) = headTrackingCleanup g"
  by (simp_all add: gridAnimationCleanup_def cancelAnimationFrame_def)

lemma orientationEffectCleanup_proj:
  "listeners (snd (orientationEffectCleanup g b)) =
     (if orientationCleanup g
      then filter (\<lambda>l. l \<noteq> (''deviceorientation'', ''handleDeviceOrientation'')) (listeners b)
      else listeners b)"
  "frameCallbacks (snd (orientationEffectCleanup g b)) = frameCallbacks b"
  "headTrackingCleanup (fst (orientationEffectCleanup g b)) = headTrackingCleanup g"
  by (simp_all add: orientationEffectCleanup_def removeEventListener_def)

lemma vrEffectCleanup_none:
  assumes "headTrackingCleanup g = None"
  shows "vrEffectCleanup g b = (g, b)"
  using assms by (simp add: vrEffectCleanup_def)

lemma gridUnmount_proj:
  assumes "headTrackingCleanup (fst s) = None"
  shows "listeners (snd (gridUnmount s)) =
     (let ls = filter (\<lambda>l. l \<noteq> (''vr-mode-toggle'', ''handleVRModeToggle''))
                 (filter (\<lambda>l. l \<noteq> (''resize'', ''handleResize''))
                   (filter (\<lambda>l. l \<noteq> (''mousemove'', ''updateMousePosition'')) (listeners (snd s))))
      in if orientationCleanup (fst s)
         then filter (\<lambda>l. l \<noteq> (''deviceorientation'', ''handleDeviceOrientation'')) ls
         else ls)"
    and "frameCallbacks (snd (gridUnmount s)) =
     (let fs = (case audioFrameId (fst s) of None \<Rightarrow> frameCallbacks (snd s)
                | Some h \<Rightarrow> filter (\<lambda>f. fst f \<noteq> h) (frameCallbacks (snd s)))
      in if gridLoopCleanup (fst s)
         then filter (\<lambda>f. fst f \<noteq> gridAnimationRef (fst s)) fs else fs)"
proof -
  have v: "\<And>g b. headTrackingCleanup g = None \<Longrightarrow> snd (vrEffectCleanup g b) = b"
    by (simp add: vrEffectCleanup_none)
  note proj = gridUnmount_def Let_def case_prod_beta v gridAnimationCleanup_proj
         orientationEffectCleanup_proj browser_proj
  show "listeners (snd (gridUnmount s)) =
     (let ls = filter (\<lambda>l. l \<noteq> (''vr-mode-toggle'', ''handleVRModeToggle''))
                 (filter (\<lambda>l. l \<noteq> (''resize'', ''handleResize''))
                   (filter (\<lambda>l. l \<noteq> (''mousemove'', ''updateMousePosition'')) (listeners (snd s))))
      in if orientationCleanup (fst s)
         then filter (\<lambda>l. l \<noteq> (''deviceorientation'', ''handleDeviceOrientation'')) ls
         else ls)"
    using assms
    by (cases "audioFrameId (fst s)"; cases "glCleanup (fst s)")
       (simp_all only: proj option.case if_True if_False)
  show "frameCallbacks (snd (gridUnmount s)) =
     (let fs = (case audioFrameId (fst s) of None \<Rightarrow> frameCallbacks (snd s)
                | Some h \<Rightarrow> filter (\<lambda>f. fst f \<noteq> h) (frameCallbacks (snd s)))
      in if gridLoopCleanup (fst s)
         then filter (\<lambda>f. fst f \<noteq> gridAnimationRef (fst s)) fs else fs)"
    using assms
    by (cases "audioFrameId (fst s)"; cases "glCleanup (fst s)")
       (simp_all only: proj option.case if_True if_False)
qed

lemma gridUnmount_clean:
  assumes "gridInv s"
  shows "frameCallbacks (snd (gridUnmount s)) = [] \<and> listeners (snd (gridUnmount s)) = []"
proof -
  obtain g b where s: "s = (g, b)" by (cases s)
  note inv = gridInv_fields [OF assms [unfolded s]]
  have h: "headTrackingCleanup (fst s) = None" using inv(2) by (simp add: s)
  note ls = filters_empty [OF inv(4) [unfolded gridListeners_def]]
  have li: "listeners (snd (gridUnmount s)) = []"
  proof (cases "orientationCleanup g")
    case True
    then show ?thesis
      unfolding gridUnmount_proj(1) [OF h] using ls(1) by (simp only: s fst_conv snd_conv Let_def if_True)
  next
    case False
    then show ?thesis
      unfolding gridUnmount_proj(1) [OF h] using ls(2) [OF False]
      by (simp only: s fst_conv snd_conv Let_def if_False)
  qed
  let ?fs = "case audioFrameId g of None \<Rightarrow> frameCallbacks b
      | Some h \<Rightarrow> filter (\<lambda>f. fst f \<noteq> h) (frameCallbacks b)"
  have sub: "set ?fs \<subseteq> set (frameCallbacks b)"
    by (cases "audioFrameId g") auto
  have noaudio: "snd f \<noteq> SimulateAudio" if "f \<in> set ?fs" for f
  proof
    assume a: "snd f = SimulateAudio"
    from that sub have "f \<in> set (frameCallbacks b)" by blast
    with inv(3) a have "audioFrameId g = Some (fst f)"
      unfolding gridFrames_def by fastforce
    with that show False by simp
  qed
  have isgrid: "gridLoopCleanup g \<and> fst f = gridAnimationRef g" if "f \<in> set ?fs" for f
  proof -
    from that sub have "f \<in> set (frameCallbacks b)" by blast
    with inv(3) noaudio [OF that] show ?thesis
      unfolding gridFrames_def by fastforce
  qed
  have fr: "frameCallbacks (snd (gridUnmount s)) = []"
  proof (cases "gridLoopCleanup g")
    case True
    have "filter (\<lambda>f. fst f \<noteq> gridAnimationRef g) ?fs = []"
      unfolding filter_empty_conv using isgrid by blast
    with True show ?thesis
      unfolding gridUnmount_proj(2) [OF h] by (simp only: s fst_conv snd_conv Let_def if_True)
  next
    case False
    have "?fs = []"
    proof (cases ?fs)
      case Nil
      then show ?thesis .
    next
      case (Cons f fs)
      then have "f \<in> set ?fs" by simp
      from isgrid [OF this] False show ?thesis by simp
    qed
    with False show ?thesis
      unfolding gridUnmount_proj(2) [OF h] by (simp only: s fst_conv snd_conv Let_def if_False)
  qed
  from fr li show ?thesis by simp
qed

section \<open>The audio grid without a WebGL context\<close>

text \<open>
  The initialisation logs and returns, the stored context stays null, and every later
  effect, frame and resize returns at its guard.
\<close>

lemma gridQuiet_pure:
  assumes "gridQuiet (g, b)"
  shows "gridQuiet (gridAnimationCleanup g b)"
    and "gridQuiet (simulateAudioLoop now rnd g b)"
    and "gridQuiet (orientationEffect g b)"
    and "gridQuiet (orientationEffectCleanup g b)"
    and "gridQuiet (vrEffectCleanup g b)"
    and "gridQuiet (headTrackingLoop g b)"
    and "gridQuiet (g, cancelAnimationFrame h b)"
    and "gridQuiet (g\<lparr>isVRMode := v\<rparr>, b)"
  using assms
  by (simp_all add: gridQuiet_def gridAnimationCleanup_def simulateAudioLoop_def
      orientationEffect_def orientationEffectCleanup_def vrEffectCleanup_def
      headTrackingLoop_def browser_defs split: option.splits)

lemma gridQuiet_js:
  assumes "gridQuiet (g, b)"
  shows "\<exists>s'. gridAnimate g b = Inr s' \<and> gridQuiet s'"
    and "\<exists>s'. gridAnimationEffect g b = Inr s' \<and> gridQuiet s'"
    and "\<exists>s'. handleResize g b = Inr s' \<and> gridQuiet s'"
    and "\<exists>s'. vrEffect g b = Inr s' \<and> gridQuiet s'"
  using assms
  by (auto simp: gridQuiet_def gridAnimate_def gridAnimationEffect_def handleResize_def
      vrEffect_def browser_defs deref_def split: option.splits)

lemma gridRerun_quiet:
  assumes "gridQuiet s"
  shows "\<exists>s'. gridRerun s = Inr s' \<and> gridQuiet s'"
proof -
  obtain g b where s: "s = (g, b)" by (cases s)
  obtain g1 b1 where c: "gridAnimationCleanup g b = (g1, b1)"
    by (cases "gridAnimationCleanup g b")
  from gridQuiet_pure(1) [OF assms [unfolded s]] have "gridQuiet (g1, b1)" by (simp add: c)
  from gridQuiet_js(2) [OF this] show ?thesis by (simp add: gridRerun_def s c)
qed

lemma gridStep_quiet:
  assumes "gridQuiet s"
  shows "\<exists>s'. gridStep e s = Inr s' \<and> gridQuiet s'"
proof -
  obtain g b where s: "s = (g, b)" by (cases s)
  note q = assms [unfolded s]
  show ?thesis
  proof (cases e)
    case (GFrame h now rnd)
    note qc = gridQuiet_pure(7) [OF q, of h]
    show ?thesis
    proof (cases "map_of (frameCallbacks b) h")
      case None
      with assms show ?thesis
        by (simp add: s GFrame takeCallback_def)
    next
      case (Some l)
      show ?thesis
      proof (cases l)
        case SimulateAudio
        obtain g1 b1 where a: "simulateAudioLoop now rnd g (cancelAnimationFrame h b) = (g1, b1)"
          by (cases "simulateAudioLoop now rnd g (cancelAnimationFrame h b)")
        from gridQuiet_pure(2) [OF qc, of now rnd] have "gridQuiet (g1, b1)" by (simp add: a)
        from gridRerun_quiet [OF this] Some SimulateAudio show ?thesis
          by (simp add: s GFrame takeCallback_def a)
      next
        case GridAnimate
        with gridQuiet_js(1) [OF qc] Some show ?thesis
          by (simp add: s GFrame takeCallback_def)
      next
        case HeadTracking
        with gridQuiet_pure(6) [OF qc] Some show ?thesis
          by (simp add: s GFrame takeCallback_def)
      next
        case ParticlesAnimate
        with assms Some show ?thesis
          by (simp add: s GFrame takeCallback_def)
      next
        case PortalAnimate
        with assms Some show ?thesis
          by (simp add: s GFrame takeCallback_def)
      qed
    qed
  next
    case GResize
    with gridQuiet_js(3) [OF q] show ?thesis by (simp add: s)
  next
    case GDepsChange
    with gridRerun_quiet [OF assms] show ?thesis by (simp add: s)
  next
    case (GVRToggle v)
    show ?thesis
    proof (cases "v = isVRMode g")
      case True
      with assms show ?thesis by (simp add: s GVRToggle)
    next
      case False
      obtain g1 b1 where c1: "orientationEffectCleanup (g\<lparr>isVRMode := v\<rparr>) b = (g1, b1)"
        by (cases "orientationEffectCleanup (g\<lparr>isVRMode := v\<rparr>) b")
      obtain g2 b2 where c2: "orientationEffect g1 b1 = (g2, b2)"
        by (cases "orientationEffect g1 b1")
      obtain g3 b3 where c3: "vrEffectCleanup g2 b2 = (g3, b3)"
        by (cases "vrEffectCleanup g2 b2")
      from gridQuiet_pure(4) [OF gridQuiet_pure(8) [OF q, of v]] have "gridQuiet (g1, b1)"
        by (simp add: c1)
      from gridQuiet_pure(3) [OF this] have "gridQuiet (g2, b2)" by (simp add: c2)
      from gridQuiet_pure(5) [OF this] have "gridQuiet (g3, b3)" by (simp add: c3)
      from gridQuiet_js(4) [OF this] False show ?thesis
        by (simp only: s GVRToggle gridStep.simps if_False c1 c2 c3 Let_def prod.case)
    qed
  next
    case GDeviceOrientation
    show ?thesis
    proof (cases "(''deviceorientation'', ''handleDeviceOrientation'') \<in> set (listeners b)")
      case True
      obtain g1 b1 where c1: "vrEffectCleanup g b = (g1, b1)"
        by (cases "vrEffectCleanup g b")
      from gridQuiet_pure(5) [OF q] have "gridQuiet (g1, b1)" by (simp add: c1)
      from gridQuiet_js(4) [OF this] True show ?thesis
        by (simp only: s GDeviceOrientation gridStep.simps if_True c1 Let_def prod.case)
    next
      case False
      with assms show ?thesis
        by (simp only: s GDeviceOrientation gridStep.simps if_False) simp
    qed
  qed
qed

lemma gridMount_quiet:
  assumes "webgl cv = None" and "experimentalWebgl cv = None"
  shows "\<exists>s. gridMount (Some cv) now rnd emptyBrowser = Inr s \<and> gridQuiet s"
proof -
  let ?g = "\<lparr>gridCanvas = Some cv, glRef = None, programRef = False, audioFrameId = None,
                audioDataLevel = 0, gridAnimationRef = 0, gridLoopCleanup = False,
                glCleanup = False, vrCanvas = None, isVRMode = False,
                orientationCleanup = False, headTrackingCleanup = None\<rparr>"
  let ?b1 = "addEventListener ''mousemove'' ''updateMousePosition'' emptyBrowser"
  obtain g1 b2 where a: "simulateAudioLoop now rnd ?g ?b1 = (g1, b2)"
    by (cases "simulateAudioLoop now rnd ?g ?b1")
  then have g1: "gridCanvas g1 = Some cv" "glRef g1 = None" "\<not> glCleanup g1"
    and b2: "sideEffects b2 = []"
    by (auto simp: simulateAudioLoop_def browser_defs emptyBrowser_def)
  have i: "initWebGL g1 b2 = Inr (g1, emit (ConsoleError ''WebGL not supported'') b2)"
    using assms g1 by (simp add: initWebGL_def)
  let ?b3 = "addEventListener ''resize'' ''handleResize''
      (emit (ConsoleError ''WebGL not supported'') b2)"
  have q3: "gridQuiet (g1, ?b3)"
    using g1 b2 by (simp add: gridQuiet_def browser_defs)
  from gridQuiet_js(2) [OF q3] obtain g3 b4
    where e: "gridAnimationEffect g1 ?b3 = Inr (g3, b4)" and q4: "gridQuiet (g3, b4)"
    by auto
  let ?b4 = "addEventListener ''vr-mode-toggle'' ''handleVRModeToggle'' b4"
  have "gridQuiet (g3, ?b4)"
    using q4 by (simp add: gridQuiet_def browser_defs)
  from gridQuiet_pure(3) [OF this] obtain g4 b5
    where o: "orientationEffect g3 ?b4 = (g4, b5)" and q5: "gridQuiet (g4, b5)"
    by (cases "orientationEffect g3 ?b4") simp
  from gridQuiet_js(4) [OF q5] obtain s6 where v: "vrEffect g4 b5 = Inr s6" and q6: "gridQuiet s6"
    by auto
  from gridRerun_quiet [OF q6] show ?thesis
    by (simp add: gridMount_def Let_def a i e o v)
qed

lemma gridUnmount_quiet:
  assumes "gridQuiet s"
  shows "sideEffects (snd (gridUnmount s)) = [ConsoleError ''WebGL not supported'']"
  using assms
  by (cases "audioFrameId (fst s)")
     (simp_all add: gridUnmount_def gridQuiet_def Let_def case_prod_beta
      gridAnimationCleanup_def orientationEffectCleanup_def vrEffectCleanup_def
      browser_defs split: option.splits)

lemma grid_quiet:
  assumes "webgl cv = None" and "experimentalWebgl cv = None"
  shows "(\<exists>s. gridMounted (Some cv) now rnd evs = Inr s \<and>
            sideEffects (snd s) = [ConsoleError ''WebGL not supported'']) \<and>
         (\<exists>s. gridLife (Some cv) now rnd evs = Inr s \<and>
            sideEffects (snd s) = [ConsoleError ''WebGL not supported''])"
proof -
  from gridMount_quiet [OF assms] obtain s0
    where s0: "gridMount (Some cv) now rnd emptyBrowser = Inr s0" "gridQuiet s0"
    by blast
  have "\<exists>s'. runEvents gridStep evs s0 = Inr s' \<and> gridQuiet s'"
    using gridStep_quiet s0(2) by (intro runEvents_invariant) blast+
  then obtain s1 where s1: "runEvents gridStep evs s0 = Inr s1" "gridQuiet s1"
    by blast
  from gridUnmount_quiet [OF s1(2)] s0 s1 show ?thesis
    by (simp add: gridLife_def gridMounted_def gridQuiet_def)
qed

lemma gridLife_clean:
  "\<exists>s. gridLife canvas now rnd evs = Inr s \<and> frameCallbacks (snd s) = [] \<and> listeners (snd s) = []"
proof -
  from gridMount_inv obtain s0 where s0: "gridMount canvas now rnd emptyBrowser = Inr s0" "gridInv s0"
    by blast
  have "\<exists>s'. runEvents gridStep evs s0 = Inr s' \<and> gridInv s'"
    using gridStep_inv s0(2) by (intro runEvents_invariant) blast+
  then obtain s1 where s1: "runEvents gridStep evs s0 = Inr s1" "gridInv s1"
    by blast
  from gridUnmount_clean [OF s1(2)] s0 s1 show ?thesis
    by (simp add: gridLife_def gridMounted_def)
qed

section \<open>Renderers whose context cannot be acquired\<close>

lemma pcUnmount_quiet:
  assumes "sideEffects (snd s) = []"
  shows "sideEffects (snd (pcUnmount s)) = []"
  using assms
  by (simp add: pcUnmount_def pcAnimationCleanup_def browser_defs Let_def)

lemma particles_quiet:
  assumes "\<not> context2d cv"
  shows "(\<exists>s. pcMounted (Some cv) rect evs = Inr s \<and> sideEffects (snd s) = []) \<and>
         (\<exists>s. pcLife (Some cv) rect evs = Inr s \<and> sideEffects (snd s) = [])"
proof -
  from pcMounted_quiet [OF assms] obtain s
    where s: "pcMounted (Some cv) rect evs = Inr s" "sideEffects (snd s) = []"
    by blast
  from pcUnmount_quiet [OF s(2)] s show ?thesis
    by (simp add: pcLife_def)
qed

text \<open>
  Claim C8. Take a renderer whose canvas gives no drawing context: no 2D context for
  the particle field and for the portal, neither a \<^verbatim>\<open>webgl\<close> nor an
  \<^verbatim>\<open>experimental-webgl\<close> context for the audio grid. Then mounting it, any events
  that follow, and unmounting it all return without an exception; the particle field
  and the portal draw and log nothing, and the only side effect of the audio grid is
  the message \<^verbatim>\<open>WebGL not supported\<close> on the console.
\<close>

theorem no_context_no_drawing:
  assumes "\<not> context2d particlesCv" and "\<not> context2d portalCv"
    and "webgl gridCv = None" and "experimentalWebgl gridCv = None"
  shows "(\<exists>s. pcMounted (Some particlesCv) rect pcEvs = Inr s \<and> sideEffects (snd s) = []) \<and>
         (\<exists>s. pcLife (Some particlesCv) rect pcEvs = Inr s \<and> sideEffects (snd s) = []) \<and>
         (\<exists>s. portalMounted (Some portalCv) portalEvs = Inr s \<and> sideEffects (snd s) = []) \<and>
         (\<exists>s. portalLife (Some portalCv) portalEvs = Inr s \<and> sideEffects (snd s) = []) \<and>
         (\<exists>s. gridMounted (Some gridCv) now rnd gridEvs = Inr s \<and>
            sideEffects (snd s) = [ConsoleError ''WebGL not supported'']) \<and>
         (\<exists>s. gridLife (Some gridCv) now rnd gridEvs = Inr s \<and>
            sideEffects (snd s) = [ConsoleError ''WebGL not supported''])"
  using particles_quiet [OF assms(1)] portal_quiet [OF assms(2)] grid_quiet [OF assms(3,4)]
  by blast

theorem no_context_no_drawing_witness:
  "\<not> context2d deadCanvas \<and> webgl deadCanvas = None \<and> experimentalWebgl deadCanvas = None \<and>
   (\<exists>s. pcMounted (Some deadCanvas) (800, 600) [PcDepsChange, PcFrame 1, PcResize (1024, 768)]
          = Inr s \<and> sideEffects (snd s) = []) \<and>
   (\<exists>s. portalMounted (Some deadCanvas) [PSetOpen True, PFrame 1, PSetDragging True, PMouseMove]
          = Inr s \<and> sideEffects (snd s) = []) \<and>
   (\<exists>s. gridLife (Some deadCanvas) 1000 0.5 [GFrame 1 1016 0.25, GResize, GVRToggle True,
            GDeviceOrientation, GDepsChange]
          = Inr s \<and> sideEffects (snd s) = [ConsoleError ''WebGL not supported''])"
proof -
  have h1: "\<not> context2d deadCanvas" by (simp add: deadCanvas_def)
  have h2: "webgl deadCanvas = None" by (simp add: deadCanvas_def)
  have h3: "experimentalWebgl deadCanvas = None" by (simp add: deadCanvas_def)
  from no_context_no_drawing [OF h1 h1 h2 h3, of "(800, 600)"
      "[PcDepsChange, PcFrame 1, PcResize (1024, 768)]"
      "[PSetOpen True, PFrame 1, PSetDragging True, PMouseMove]" 1000 "0.5"
      "[GFrame 1 1016 0.25, GResize, GVRToggle True, GDeviceOrientation, GDepsChange]"]
  show ?thesis using h1 h2 h3 by blast
qed

section \<open>Unmounting a renderer\<close>

text \<open>
  Claim C9. Mount the particle field, the portal, or the audio grid with its VR
  wrapper into an empty browser, let any events follow (frames, resizes, mouse moves,
  opening and dragging the portal, switching VR mode, device orientation), and unmount
  it: no exception is thrown, no animation-frame callback remains registered and no
  event listener remains. This holds whatever the canvas provides.
\<close>

theorem unmount_leaves_nothing:
  "(\<exists>s. pcLife particlesCv rect pcEvs = Inr s \<and>
       frameCallbacks (snd s) = [] \<and> listeners (snd s) = []) \<and>
   (\<exists>s. portalLife portalCv portalEvs = Inr s \<and>
       frameCallbacks (snd s) = [] \<and> listeners (snd s) = []) \<and>
   (\<exists>s. gridLife gridCv now rnd gridEvs = Inr s \<and>
       frameCallbacks (snd s) = [] \<and> listeners (snd s) = [])"
  using pcLife_clean portalLife_clean gridLife_clean by blast

theorem unmount_leaves_nothing_witness:
  "(\<exists>s. pcLife (Some liveCanvas) (800, 600) [PcFrame 1, PcDepsChange, PcFrame 2, PcFrame 3]
        = Inr s \<and> frameCallbacks (snd s) = [] \<and> listeners (snd s) = []) \<and>
   (\<exists>s. portalLife (Some liveCanvas) [PSetOpen True, PFrame 1, PSetDragging True, PMouseMove]
        = Inr s \<and> frameCallbacks (snd s) = [] \<and> listeners (snd s) = []) \<and>
   (\<exists>s. gridLife (Some liveCanvas) 1000 0.5 [GFrame 1 1016 0.25, GFrame 2 1016 0.25,
          GVRToggle True, GDeviceOrientation, GResize]
        = Inr s \<and> frameCallbacks (snd s) = [] \<and> listeners (snd s) = [])"
  by (rule unmount_leaves_nothing)

text \<open>
  The head-tracking loop itself keeps only the handle of its first request. It cannot
  start, since no element carries the wrapper's canvas reference; if one did, then after
  the effect, one frame and the cleanup, the callback of the second request would still
  be registered.
\<close>

lemma head_tracking_loop_if_started:
  "vrEffect vrGrid emptyBrowser =
     Inr (vrGrid\<lparr>headTrackingCleanup := Some 1\<rparr>,
          emptyBrowser\<lparr>nextHandle := 2, frameCallbacks := [(1, HeadTracking)]\<rparr>) \<and>
   frameCallbacks (snd (vrEffectCleanup (vrGrid\<lparr>headTrackingCleanup := Some 1\<rparr>)
      (snd (headTrackingLoop (vrGrid\<lparr>headTrackingCleanup := Some 1\<rparr>)
         (snd (takeCallback 1
            (emptyBrowser\<lparr>nextHandle := 2, frameCallbacks := [(1, HeadTracking)]\<rparr>)))))))
     = [(2, HeadTracking)]"
  by (simp add: vrEffect_def vrGrid_def emptyBrowser_def vrEffectCleanup_def
      headTrackingLoop_def browser_defs)


end
